theory Spec2Isabelle
  imports Main "HOL-Library.Word"
begin

section \<open>Python values, exceptions and library behaviour\<close>

text \<open>
  A Python \<open>str\<close> is modelled as a \<^typ>\<open>string\<close>: one \<^typ>\<open>char\<close> stands for one
  character of the text, and \<^const>\<open>length\<close> counts characters as \<open>len\<close> does.
  A raised exception is a value: its class and the text \<open>str(e)\<close>. The values stand for
  instances of subclasses of \<open>Exception\<close>, which is what \<open>except Exception\<close> and a bare
  \<open>except\<close> both catch. A call that may raise returns \<open>py_exception + 'a\<close>, with
  \<^const>\<open>Inl\<close> for the exception.
\<close>

datatype exc_class =
  UnicodeDecodeError | UnicodeEncodeError | UnicodeTranslateError | UnicodeError
  | ValueError | OSError | IndexError | KeyError | AttributeError | RuntimeError

datatype py_exception = Raised (exc_type: exc_class) (exc_str: string)

type_synonym byte = "8 word"

text \<open>
  The behaviour of the interpreter's built-in string methods and codecs is not part of the
  repository. What the code calls is taken as a parameter: \<open>str.lower\<close>, \<open>str.strip\<close>,
  \<open>str.isalnum\<close> (on one character) and the decoder of the codec of a given name, which
  yields \<^const>\<open>None\<close> where the codec rejects the bytes (the read then raises
  \<open>UnicodeDecodeError\<close>).
\<close>

record py_builtins =
  str_lower :: "string \<Rightarrow> string"
  str_strip :: "string \<Rightarrow> string"
  str_isalnum :: "char \<Rightarrow> bool"
  codec_decode :: "string \<Rightarrow> byte list \<Rightarrow> string option"

text \<open>ASCII instances of the string methods, used to run the model on concrete inputs.\<close>

definition ascii_lower :: "char \<Rightarrow> char" where
  "ascii_lower c =
     (case map_of (zip ''ABCDEFGHIJKLMNOPQRSTUVWXYZ'' ''abcdefghijklmnopqrstuvwxyz'') c of
        Some d \<Rightarrow> d
      | None \<Rightarrow> c)"

definition ascii_isalnum :: "char \<Rightarrow> bool" where
  "ascii_isalnum c \<longleftrightarrow>
     c \<in> set ''0123456789ABCDEFGHIJKLMNOPQRSTUVWXYZabcdefghijklmnopqrstuvwxyz''"

definition ascii_isspace :: "char \<Rightarrow> bool" where
  "ascii_isspace c \<longleftrightarrow> c \<in> {CHR '' '', CHR 0x09, CHR 0x0A, CHR 0x0B, CHR 0x0C, CHR 0x0D}"

definition ascii_strip :: "string \<Rightarrow> string" where
  "ascii_strip s = rev (dropWhile ascii_isspace (rev (dropWhile ascii_isspace s)))"

section \<open>File filter: \<open>codebase_ingestion.py\<close>\<close>

definition CODE_EXTENSIONS :: "string set" where
  "CODE_EXTENSIONS =
     {''.py'', ''.js'', ''.jsx'', ''.ts'', ''.tsx'', ''.java'', ''.cpp'', ''.c'', ''.h'', ''.hpp'',
      ''.cs'', ''.go'', ''.rs'', ''.rb'', ''.php'', ''.swift'', ''.kt'', ''.scala'', ''.r'',
      ''.html'', ''.css'', ''.scss'', ''.sass'', ''.vue'', ''.svelte'',
      ''.json'', ''.yaml'', ''.yml'', ''.toml'', ''.xml'', ''.md'', ''.txt'',
      ''.sql'', ''.sh'', ''.bash'', ''.ps1'', ''.dockerfile''}"

definition IGNORE_DIRS :: "string set" where
  "IGNORE_DIRS =
     {''node_modules'', ''__pycache__'', ''.git'', ''.venv'', ''venv'', ''env'',
      ''dist'', ''build'', ''target'', ''.next'', ''.nuxt'', ''out'',
      ''coverage'', ''.pytest_cache'', ''.mypy_cache'', ''.tox'',
      ''vendor'', ''packages'', ''bin'', ''obj''}"

definition IGNORE_FILES :: "string set" where
  "IGNORE_FILES =
     {''.DS_Store'', ''package-lock.json'', ''yarn.lock'', ''poetry.lock'',
      ''Pipfile.lock'', ''.gitignore'', ''.env'', ''.env.local''}"

text \<open>
  A \<open>pathlib.Path\<close> as the code reads it: its \<open>name\<close>, its \<open>suffix\<close>, the names of
  its \<open>parents\<close> (nearest first, as \<open>file_path.parents\<close> yields them), and what the file
  system answers for it: \<open>is_file()\<close>, \<open>stat().st_size\<close> (or the exception \<open>stat\<close>
  raises), \<open>relative_to(root_path)\<close> rendered by \<open>str\<close> (or the exception raised), and
  the bytes \<open>open\<close> gives access to (or the exception \<open>open\<close> raises).
\<close>

record py_path =
  name :: string
  suffix :: string
  parent_names :: "string list"
  is_file :: bool
  stat_st_size :: "py_exception + nat"
  relative_to_root :: "py_exception + string"
  file_bytes :: "py_exception + byte list"

text \<open>The loop \<open>for parent in file_path.parents\<close> with its early \<open>return False\<close>.\<close>

fun in_ignored_dir :: "string list \<Rightarrow> bool" where
  "in_ignored_dir [] = False"
| "in_ignored_dir (parent # rest) = (if parent \<in> IGNORE_DIRS then True else in_ignored_dir rest)"

text \<open>
  \<open>should_process_file\<close>: the four checks in the order of the source. The call of \<open>stat\<close>
  sits in a \<open>try\<close> with a bare \<open>except\<close>, so whatever it raises becomes \<open>False\<close>.
\<close>

definition should_process_file :: "py_builtins \<Rightarrow> py_path \<Rightarrow> bool" where
  "should_process_file py file_path =
     (if str_lower py (suffix file_path) \<notin> CODE_EXTENSIONS then False
      else if name file_path \<in> IGNORE_FILES then False
      else if in_ignored_dir (parent_names file_path) then False
      else (case stat_st_size file_path of
              Inl e \<Rightarrow> False
            | Inr st_size \<Rightarrow> if st_size > 1000000 then False else True))"

section \<open>Content loader: \<open>read_file_content\<close>\<close>

text \<open>
  Modelled from the spec: the decoder of the interpreter's \<open>latin-1\<close> codec, which is not
  under \<open>src/\<close>. ISO 8859-1 gives every byte value the character with that code, so the
  decoder accepts every byte sequence.
\<close>

definition decode_latin1 :: "byte list \<Rightarrow> string option" where
  "decode_latin1 bs = Some (map (\<lambda>b. char_of (unat b)) bs)"

text \<open>
  A file opened in text mode with the default \<open>newline=None\<close> is read with universal
  newlines: \<open>\r\n\<close> and a lone \<open>\r\<close> both arrive as \<open>\n\<close>.
\<close>

fun universal_newlines :: "string \<Rightarrow> string" where
  "universal_newlines [] = []"
| "universal_newlines [c] = (if c = CHR 0x0D then [CHR 0x0A] else [c])"
| "universal_newlines (c # d # rest) =
     (if c = CHR 0x0D \<and> d = CHR 0x0A then CHR 0x0A # universal_newlines rest
      else if c = CHR 0x0D then CHR 0x0A # universal_newlines (d # rest)
      else c # universal_newlines (d # rest))"

text \<open>
  \<open>with open(file_path, 'r', encoding=encoding) as f: return f.read()\<close>: \<open>open\<close> may
  raise by itself; otherwise the bytes are decoded, and a rejected byte sequence raises
  \<open>UnicodeDecodeError\<close>.
\<close>

definition open_read :: "py_builtins \<Rightarrow> py_path \<Rightarrow> string \<Rightarrow> py_exception + string" where
  "open_read py file_path encoding =
     (case file_bytes file_path of
        Inl e \<Rightarrow> Inl e
      | Inr bs \<Rightarrow>
          (case codec_decode py encoding bs of
             None \<Rightarrow> Inl (Raised UnicodeDecodeError encoding)
           | Some text \<Rightarrow> Inr (universal_newlines text)))"

text \<open>\<open>except (UnicodeDecodeError, UnicodeError)\<close> catches \<open>UnicodeError\<close> and its subclasses.\<close>

definition is_unicode_error :: "py_exception \<Rightarrow> bool" where
  "is_unicode_error e \<longleftrightarrow>
     exc_type e \<in> {UnicodeDecodeError, UnicodeEncodeError, UnicodeTranslateError, UnicodeError}"

text \<open>
  The loop \<open>for encoding in encodings\<close>: \<open>Inr (Some text)\<close> is the \<open>return f.read()\<close>
  inside the loop, \<open>Inr None\<close> is the loop running to its end, \<open>Inl e\<close> an exception
  that the \<open>except\<close> clause does not catch.
\<close>

fun try_encodings :: "py_builtins \<Rightarrow> py_path \<Rightarrow> string list \<Rightarrow> py_exception + string option" where
  "try_encodings py file_path [] = Inr None"
| "try_encodings py file_path (encoding # rest) =
     (case open_read py file_path encoding of
        Inr text \<Rightarrow> Inr (Some text)
      | Inl e \<Rightarrow> if is_unicode_error e then try_encodings py file_path rest else Inl e)"

definition encodings :: "string list" where
  "encodings = [''utf-8'', ''latin-1'', ''cp1252'']"

definition read_file_content :: "py_builtins \<Rightarrow> py_path \<Rightarrow> py_exception + string" where
  "read_file_content py file_path =
     (case try_encodings py file_path encodings of
        Inl e \<Rightarrow> Inl e
      | Inr (Some text) \<Rightarrow> Inr text
      | Inr None \<Rightarrow> Inr [])"

section \<open>Ingestion orchestrator: \<open>process_codebase\<close>\<close>

text \<open>Decimal rendering of integers, as \<open>str\<close> and an f-string field give it.\<close>

definition digit_char :: "nat \<Rightarrow> char" where
  "digit_char d = ''0123456789'' ! d"

function str_nat :: "nat \<Rightarrow> string" where
  "str_nat n = (if n < 10 then [digit_char n] else str_nat (n div 10) @ [digit_char (n mod 10)])"
  by pat_completeness auto
termination
  by (relation "measure id") auto

declare str_nat.simps [simp del]

definition str_int :: "int \<Rightarrow> string" where
  "str_int i = (if i < 0 then CHR ''-'' # str_nat (nat (- i)) else str_nat (nat i))"

text \<open>A value stored in a metadata dictionary, and the dictionary itself.\<close>

datatype py_value = PyStr string | PyInt int

type_synonym metadata = "string \<rightharpoonup> py_value"

text \<open>
  The ingestion service holds the configured splitter; the repository fixes its parameters
  (chunk size 1500, overlap 200, the separator list) and calls its \<open>split_text\<close>, which
  belongs to the package \<open>langchain_text_splitters\<close> and is a parameter here.
\<close>

record CodebaseIngestion =
  split_text :: "string \<Rightarrow> string list"

text \<open>The local variables of \<open>process_codebase\<close> that the loops update.\<close>

record ingest_state =
  all_chunks :: "string list"
  all_metadatas :: "metadata list"
  all_ids :: "string list"
  file_count :: int
  chunk_id :: int

definition enumerate :: "'a list \<Rightarrow> (nat \<times> 'a) list" where
  "enumerate xs = zip [0..<length xs] xs"

definition chunk_metadata :: "string \<Rightarrow> py_path \<Rightarrow> nat \<Rightarrow> nat \<Rightarrow> metadata" where
  "chunk_metadata relative_path file_path i n_total =
     [''file_path'' \<mapsto> PyStr relative_path,
      ''file_name'' \<mapsto> PyStr (name file_path),
      ''file_extension'' \<mapsto> PyStr (suffix file_path),
      ''chunk_index'' \<mapsto> PyInt (int i),
      ''total_chunks'' \<mapsto> PyInt (int n_total)]"

text \<open>The inner loop \<open>for i, chunk in enumerate(chunks)\<close>.\<close>

fun append_chunks ::
  "string \<Rightarrow> py_path \<Rightarrow> nat \<Rightarrow> (nat \<times> string) list \<Rightarrow> ingest_state \<Rightarrow> ingest_state" where
  "append_chunks relative_path file_path n_total [] st = st"
| "append_chunks relative_path file_path n_total ((i, chunk) # rest) st =
     append_chunks relative_path file_path n_total rest
       (st\<lparr>all_chunks := all_chunks st @ [chunk],
           all_metadatas := all_metadatas st @ [chunk_metadata relative_path file_path i n_total],
           all_ids := all_ids st @ [''chunk_'' @ str_int (chunk_id st)],
           chunk_id := chunk_id st + 1\<rparr>)"

text \<open>
  \<open>except ValueError\<close> around \<open>relative_to\<close> catches \<open>ValueError\<close> and its subclasses,
  and falls back to the bare file name.
\<close>

definition is_value_error :: "py_exception \<Rightarrow> bool" where
  "is_value_error e \<longleftrightarrow> exc_type e = ValueError \<or> is_unicode_error e"

definition relative_path_str :: "py_path \<Rightarrow> py_exception + string" where
  "relative_path_str file_path =
     (case relative_to_root file_path of
        Inr p \<Rightarrow> Inr p
      | Inl e \<Rightarrow> if is_value_error e then Inr (name file_path) else Inl e)"

text \<open>The body of the loop \<open>for file_path in root_path.rglob('*')\<close>, for one path.\<close>

definition process_file ::
  "py_builtins \<Rightarrow> CodebaseIngestion \<Rightarrow> py_path \<Rightarrow> ingest_state \<Rightarrow> py_exception + ingest_state" where
  "process_file py self file_path st =
     (if \<not> is_file file_path then Inr st
      else if \<not> should_process_file py file_path then Inr st
      else
        (case read_file_content py file_path of
           Inl e \<Rightarrow> Inl e
         | Inr content \<Rightarrow>
             if str_strip py content = [] then Inr st
             else
               (let st1 = st\<lparr>file_count := file_count st + 1\<rparr> in
                case relative_path_str file_path of
                  Inl e \<Rightarrow> Inl e
                | Inr relative_path \<Rightarrow>
                    (let chunks = split_text self content in
                     Inr (append_chunks relative_path file_path (length chunks)
                            (enumerate chunks) st1)))))"

fun walk ::
  "py_builtins \<Rightarrow> CodebaseIngestion \<Rightarrow> py_path list \<Rightarrow> ingest_state \<Rightarrow> py_exception + ingest_state" where
  "walk py self [] st = Inr st"
| "walk py self (file_path # rest) st =
     (case process_file py self file_path st of
        Inl e \<Rightarrow> Inl e
      | Inr st' \<Rightarrow> walk py self rest st')"

definition initial_state :: ingest_state where
  "initial_state =
     \<lparr>all_chunks = [], all_metadatas = [], all_ids = [], file_count = 0, chunk_id = 0\<rparr>"

text \<open>
  \<open>process_codebase\<close>; the argument \<open>rglob\<close> is the sequence of paths that
  \<open>root_path.rglob('*')\<close> yields.
\<close>

definition process_codebase ::
  "py_builtins \<Rightarrow> CodebaseIngestion \<Rightarrow> py_path list
     \<Rightarrow> py_exception + (string list \<times> metadata list \<times> string list)" where
  "process_codebase py self rglob =
     (case walk py self rglob initial_state of
        Inl e \<Rightarrow> Inl e
      | Inr st \<Rightarrow> Inr (all_chunks st, all_metadatas st, all_ids st))"

text \<open>
  What one path of the walk contributes, read off the loop body: the text that is split
  (none when the path is skipped or a call raises), its chunks, and one pair of chunk and
  metadata per chunk.
\<close>

definition file_content :: "py_builtins \<Rightarrow> py_path \<Rightarrow> string option" where
  "file_content py file_path =
     (if is_file file_path \<and> should_process_file py file_path then
        (case read_file_content py file_path of
           Inl e \<Rightarrow> None
         | Inr content \<Rightarrow> if str_strip py content = [] then None else Some content)
      else None)"

definition file_chunks :: "py_builtins \<Rightarrow> CodebaseIngestion \<Rightarrow> py_path \<Rightarrow> string list" where
  "file_chunks py self file_path =
     (case file_content py file_path of
        None \<Rightarrow> []
      | Some content \<Rightarrow>
          (case relative_path_str file_path of Inl e \<Rightarrow> [] | Inr p \<Rightarrow> split_text self content))"

definition file_metadatas :: "py_builtins \<Rightarrow> CodebaseIngestion \<Rightarrow> py_path \<Rightarrow> metadata list" where
  "file_metadatas py self file_path =
     (case relative_path_str file_path of
        Inl e \<Rightarrow> []
      | Inr p \<Rightarrow>
          map (\<lambda>i. chunk_metadata p file_path i (length (file_chunks py self file_path)))
            [0..<length (file_chunks py self file_path)])"

text \<open>A path at which the loop body raises: the read or \<open>relative_to\<close> fails uncaught.\<close>

definition file_raises :: "py_builtins \<Rightarrow> py_path \<Rightarrow> bool" where
  "file_raises py file_path \<longleftrightarrow>
     is_file file_path \<and> should_process_file py file_path \<and>
     (case read_file_content py file_path of
        Inl e \<Rightarrow> True
      | Inr content \<Rightarrow>
          str_strip py content \<noteq> [] \<and>
          (case relative_path_str file_path of Inl e \<Rightarrow> True | Inr p \<Rightarrow> False))"

section \<open>Vector index: \<open>vector_store.py\<close>\<close>

text \<open>
  The database client \<open>_chroma_client\<close> is a process-wide object of the package
  \<open>chromadb\<close>. Its state has some type \<open>'c\<close>; its method \<open>delete_collection(name)\<close> is a
  parameter that yields the outcome of the call (returns, or raises) and the client's state
  afterwards. The world a call of the service acts on is that client and the lines written
  by \<open>print\<close>.
\<close>

record 'c world =
  chroma_client :: 'c
  stdout :: "string list"

record VectorStore =
  collection_name :: string

type_synonym 'c client_delete = "string \<Rightarrow> 'c \<Rightarrow> (py_exception + unit) \<times> 'c"

text \<open>
  \<open>VectorStore.delete_collection\<close>: the client call sits in \<open>try\<close>, and
  \<open>except Exception as e\<close> prints one line. The first component of the result is the
  outcome of the method itself.
\<close>

definition delete_collection ::
  "'c client_delete \<Rightarrow> VectorStore \<Rightarrow> 'c world \<Rightarrow> (py_exception + unit) \<times> 'c world" where
  "delete_collection client_delete_collection self w =
     (case client_delete_collection (collection_name self) (chroma_client w) of
        (Inr u, c) \<Rightarrow> (Inr (), w\<lparr>chroma_client := c\<rparr>)
      | (Inl e, c) \<Rightarrow>
          (Inr (),
           w\<lparr>chroma_client := c,
             stdout := stdout w @
               [''Error deleting collection '' @ collection_name self @ '': '' @ exc_str e]\<rparr>))"

text \<open>Two calls in a row: the second runs only when the first has returned.\<close>

definition delete_collection_twice ::
  "'c client_delete \<Rightarrow> VectorStore \<Rightarrow> 'c world \<Rightarrow> (py_exception + unit) \<times> 'c world" where
  "delete_collection_twice client_delete_collection self w =
     (case delete_collection client_delete_collection self w of
        (Inl e, w1) \<Rightarrow> (Inl e, w1)
      | (Inr u, w1) \<Rightarrow> delete_collection client_delete_collection self w1)"

text \<open>
  A client to run the model on: its state is the list of the names of the collections, and
  deleting an absent collection raises.
\<close>

definition sample_client_delete :: "string list client_delete" where
  "sample_client_delete nm cols =
     (if nm \<in> set cols then (Inr (), removeAll nm cols)
      else (Inl (Raised ValueError (''Collection '' @ nm @ '' does not exist.'')), cols))"

subsection \<open>\<open>create_collection_name\<close>\<close>

text \<open>
  \<open>hashlib.md5(unique_str.encode()).hexdigest()\<close>: the digest of MD5 has 128 bits, and
  \<open>hexdigest\<close> writes them as 32 lower-case hexadecimal digits, the most significant
  first. The hash function itself is a parameter \<open>md5\<close> from the text to its digest.
\<close>

definition hex_digit :: "nat \<Rightarrow> char" where
  "hex_digit d = ''0123456789abcdef'' ! d"

definition hexdigest :: "128 word \<Rightarrow> string" where
  "hexdigest w = map (\<lambda>i. hex_digit (unat (take_bit 4 (drop_bit (4 * (31 - i)) w)))) [0..<32]"

definition replace_space :: "string \<Rightarrow> string" where
  "replace_space s = map (\<lambda>c. if c = CHR '' '' then CHR ''_'' else c) s"

text \<open>
  \<open>create_collection_name\<close>; \<open>now\<close> is the value of \<open>int(time.time())\<close> at the call.
\<close>

definition unique_str :: "int \<Rightarrow> int \<Rightarrow> string \<Rightarrow> string" where
  "unique_str now user_id project_name =
     str_int user_id @ ''_'' @ project_name @ ''_'' @ str_int now"

definition hash_suffix :: "(string \<Rightarrow> 128 word) \<Rightarrow> int \<Rightarrow> int \<Rightarrow> string \<Rightarrow> string" where
  "hash_suffix md5 now user_id project_name =
     take 8 (hexdigest (md5 (unique_str now user_id project_name)))"

definition safe_name :: "py_builtins \<Rightarrow> string \<Rightarrow> string" where
  "safe_name py project_name =
     filter (\<lambda>c. str_isalnum py c \<or> c \<in> set ''_-'')
       (take 30 (replace_space (str_lower py project_name)))"

definition create_collection_name ::
  "py_builtins \<Rightarrow> (string \<Rightarrow> 128 word) \<Rightarrow> int \<Rightarrow> int \<Rightarrow> string \<Rightarrow> string" where
  "create_collection_name py md5 now user_id project_name =
     ''user'' @ str_int user_id @ ''_'' @ safe_name py project_name @ ''_'' @
       hash_suffix md5 now user_id project_name"

text \<open>
  The characters the comment in the source allows in a collection name: the ASCII letters
  and digits, the underscore and the hyphen.
\<close>

definition name_char :: "char \<Rightarrow> bool" where
  "name_char c \<longleftrightarrow> ascii_isalnum c \<or> c = CHR ''_'' \<or> c = CHR ''-''"

section \<open>Retriever and answer composer: \<open>rag_agent.py\<close>\<close>

text \<open>
  The result of \<open>VectorStore.search\<close>, as the database returns it: one list of hits per
  query embedding, under the keys \<open>documents\<close>, \<open>metadatas\<close> and \<open>distances\<close>. A
  distance is a float; nothing in the claims depends on its value, so its type is left
  open and the text of \<open>{1 - distance:.2f}\<close> is a parameter \<open>score_text\<close>.
\<close>

record 'd query_result =
  documents :: "string list list"
  metadatas :: "metadata list list"
  distances :: "'d list list"

definition NL :: string where
  "NL = [CHR 0x0A]"

definition first_item :: "'a list \<Rightarrow> py_exception + 'a" where
  "first_item xs =
     (case xs of [] \<Rightarrow> Inl (Raised IndexError ''list index out of range'') | x # rest \<Rightarrow> Inr x)"

definition dict_get :: "metadata \<Rightarrow> string \<Rightarrow> py_value \<Rightarrow> py_value" where
  "dict_get d k dflt = (case d k of Some v \<Rightarrow> v | None \<Rightarrow> dflt)"

definition py_str :: "py_value \<Rightarrow> string" where
  "py_str v = (case v of PyStr s \<Rightarrow> s | PyInt i \<Rightarrow> str_int i)"

text \<open>\<open>.lstrip('.')\<close> on a metadata value; only a string has the method.\<close>

definition lstrip_dot :: "py_value \<Rightarrow> py_exception + string" where
  "lstrip_dot v =
     (case v of
        PyStr s \<Rightarrow> Inr (dropWhile (\<lambda>c. c = CHR ''.'') s)
      | PyInt i \<Rightarrow> Inl (Raised AttributeError ''int object has no attribute lstrip''))"

text \<open>
  The \<open>set\<close> named \<open>file_paths\<close> is held as the list of its elements in the order in
  which \<open>add\<close> first inserted them. The order in which \<open>list(file_paths)\<close> walks the set
  is decided by the hash values of its elements and is not fixed by the code: it is a
  parameter \<open>set_order\<close>, a function from the elements as inserted to the elements as
  listed. The interpreter lists every element once, which is \<open>iteration_order\<close>.
\<close>

definition set_add :: "'a \<Rightarrow> 'a list \<Rightarrow> 'a list" where
  "set_add x s = (if x \<in> set s then s else s @ [x])"

definition iteration_order :: "('a list \<Rightarrow> 'a list) \<Rightarrow> bool" where
  "iteration_order set_order \<longleftrightarrow>
     (\<forall>xs. distinct xs \<longrightarrow> distinct (set_order xs) \<and> set (set_order xs) = set xs)"

definition context_part :: "string \<Rightarrow> string \<Rightarrow> string \<Rightarrow> string \<Rightarrow> string" where
  "context_part file_path score extension doc =
     NL @ ''### File: `'' @ file_path @ ''`'' @ NL @
     ''**Relevance Score**: '' @ score @ NL @ NL @
     ''```'' @ extension @ NL @ doc @ NL @ ''```'' @ NL"

text \<open>The loop over \<open>zip(documents[0], metadatas[0], distances[0])\<close>.\<close>

fun hits_loop ::
  "('d \<Rightarrow> string) \<Rightarrow> (string \<times> metadata \<times> 'd) list \<Rightarrow> string list \<Rightarrow> py_value list
     \<Rightarrow> py_exception + (string list \<times> py_value list)" where
  "hits_loop score_text [] context_parts file_paths = Inr (context_parts, file_paths)"
| "hits_loop score_text ((doc, metadata, distance) # rest) context_parts file_paths =
     (let file_path = dict_get metadata ''file_path'' (PyStr ''unknown'') in
      case lstrip_dot (dict_get metadata ''file_extension'' (PyStr [])) of
        Inl e \<Rightarrow> Inl e
      | Inr extension \<Rightarrow>
          hits_loop score_text rest
            (context_parts @ [context_part (py_str file_path) (score_text distance) extension doc])
            (set_add file_path file_paths))"

fun join :: "string \<Rightarrow> string list \<Rightarrow> string" where
  "join sep [] = []"
| "join sep [x] = x"
| "join sep (x # y # rest) = x @ sep @ join sep (y # rest)"

definition format_hits ::
  "('d \<Rightarrow> string) \<Rightarrow> (py_value list \<Rightarrow> py_value list) \<Rightarrow> 'd query_result
     \<Rightarrow> py_exception + (string \<times> py_value list)" where
  "format_hits score_text set_order results =
     (if documents results = [] \<or> hd (documents results) = [] then
        Inr (''No relevant code found in the codebase.'', [])
      else
        (case first_item (documents results) of
           Inl e \<Rightarrow> Inl e
         | Inr docs \<Rightarrow>
             (case first_item (metadatas results) of
                Inl e \<Rightarrow> Inl e
              | Inr metas \<Rightarrow>
                  (case first_item (distances results) of
                     Inl e \<Rightarrow> Inl e
                   | Inr dists \<Rightarrow>
                       (case hits_loop score_text (zip docs (zip metas dists)) [] [] of
                          Inl e \<Rightarrow> Inl e
                        | Inr (context_parts, file_paths) \<Rightarrow>
                            Inr (join NL context_parts, set_order file_paths))))))"

text \<open>
  The agent object: its class constant \<open>SYSTEM_PROMPT\<close>, the \<open>search\<close> method of its
  vector store, and the two generation capabilities. \<open>agent_run instructions prompt\<close> is
  \<open>self.agent.run(prompt)\<close> for the agent built with these instructions;
  \<open>generate_content system_instruction prompt\<close> is the text of the response of the model
  built with this system instruction, or the exception raised on the way.
  \<open>ANALYSIS_GUIDELINES\<close> is the fixed closing text of the prompt (from
  \<open>Please analyze the code context above\<close> to \<open>Now provide your analysis:\<close>), which
  contains characters outside ASCII and whose wording no claim depends on.
\<close>

datatype agno_message =
  AgnoMessage (message_content: "string option") (message_str: string)

record agno_response =
  response_content :: "string option"
  response_messages :: "agno_message list option"
  response_str :: string

record 'd CodebaseArchitectAgent =
  SYSTEM_PROMPT :: string
  ANALYSIS_GUIDELINES :: string
  vector_store_search :: "string \<Rightarrow> nat \<Rightarrow> py_exception + 'd query_result"
  agent_run :: "string \<Rightarrow> string \<Rightarrow> py_exception + agno_response"
  generate_content :: "string \<Rightarrow> string \<Rightarrow> py_exception + string"

definition retrieve_context ::
  "('d \<Rightarrow> string) \<Rightarrow> (py_value list \<Rightarrow> py_value list) \<Rightarrow> 'd CodebaseArchitectAgent
     \<Rightarrow> string \<Rightarrow> nat \<Rightarrow> py_exception + (string \<times> py_value list)" where
  "retrieve_context score_text set_order self query n_results =
     (case vector_store_search self query n_results of
        Inl e \<Rightarrow> Inl e
      | Inr results \<Rightarrow> format_hits score_text set_order results)"

text \<open>The hits of a result as the loop sees them, and the \<open>file_path\<close> of each.\<close>

definition hits :: "'d query_result \<Rightarrow> (string \<times> metadata \<times> 'd) list" where
  "hits results =
     (if documents results = [] \<or> hd (documents results) = [] then []
      else zip (hd (documents results)) (zip (hd (metadatas results)) (hd (distances results))))"

definition hit_file_paths :: "'d query_result \<Rightarrow> py_value list" where
  "hit_file_paths results =
     map (\<lambda>(doc, metadata, distance). dict_get metadata ''file_path'' (PyStr ''unknown''))
       (hits results)"

definition retrieved_files ::
  "('d \<Rightarrow> string) \<Rightarrow> (py_value list \<Rightarrow> py_value list) \<Rightarrow> 'd CodebaseArchitectAgent
     \<Rightarrow> string \<Rightarrow> nat \<Rightarrow> py_exception + py_value list" where
  "retrieved_files score_text set_order self query n_results =
     (case retrieve_context score_text set_order self query n_results of
        Inl e \<Rightarrow> Inl e
      | Inr (context, files) \<Rightarrow> Inr files)"

text \<open>The distinct elements of a list in the order of their first appearance.\<close>

definition first_appearance :: "'a list \<Rightarrow> 'a list" where
  "first_appearance xs = rev (remdups (rev xs))"

subsection \<open>\<open>analyze\<close>\<close>

record chat_message =
  role :: string
  content :: string

record analysis =
  reply :: string
  relevant_files :: "py_value list"

text \<open>
  What a call of \<open>analyze\<close> does to the outside is recorded in a trace: the invocations of
  the generation capabilities, each with the instructions and the prompt it received, and
  the lines written by \<open>print\<close>.
\<close>

datatype generation_call = AgentRun string string | GenerateContent string string

record trace =
  calls :: "generation_call list"
  printed :: "string list"

definition render_message :: "chat_message \<Rightarrow> string" where
  "render_message msg =
     ''**'' @ (if role msg = ''user'' then ''User'' else ''Assistant'') @ ''**: '' @
     take 200 (content msg) @ ''...'' @ NL @ NL"

definition conversation_context :: "chat_message list option \<Rightarrow> string" where
  "conversation_context chat_history =
     (case chat_history of
        None \<Rightarrow> []
      | Some history \<Rightarrow>
          if history = [] then []
          else NL @ ''## CONVERSATION HISTORY'' @ NL @ NL @
               concat (map render_message (drop (length history - 6) history)) @
               ''---'' @ NL @ NL)"

definition build_prompt ::
  "'d CodebaseArchitectAgent \<Rightarrow> string \<Rightarrow> chat_message list option \<Rightarrow> string \<Rightarrow> string" where
  "build_prompt self context chat_history question =
     ''## RELEVANT CODE CONTEXT'' @ NL @ NL @ context @ NL @ NL @ ''---'' @ NL @ NL @
     conversation_context chat_history @ ''## USER QUESTION'' @ NL @ question @ NL @ NL @
     ''---'' @ NL @ NL @ ANALYSIS_GUIDELINES self"

text \<open>Reading the reply off the response of the agent framework.\<close>

definition extract_reply :: "agno_response \<Rightarrow> string" where
  "extract_reply response =
     (case response_content response of
        Some c \<Rightarrow> c
      | None \<Rightarrow>
          (case response_messages response of
             None \<Rightarrow> response_str response
           | Some msgs \<Rightarrow>
               if msgs = [] then response_str response
               else (case message_content (last msgs) of
                       Some c \<Rightarrow> c
                     | None \<Rightarrow> message_str (last msgs))))"

definition fallback_gemini_call ::
  "'d CodebaseArchitectAgent \<Rightarrow> string \<Rightarrow> py_value list \<Rightarrow> trace
     \<Rightarrow> (py_exception + analysis) \<times> trace" where
  "fallback_gemini_call self prompt files tr =
     (let tr1 = tr\<lparr>calls := calls tr @ [GenerateContent (SYSTEM_PROMPT self) prompt]\<rparr> in
      case generate_content self (SYSTEM_PROMPT self) prompt of
        Inr text \<Rightarrow> (Inr \<lparr>reply = text, relevant_files = files\<rparr>, tr1)
      | Inl e \<Rightarrow>
          (Inr \<lparr>reply =
                  ''I apologize, but I encountered an error analyzing the codebase: '' @
                  exc_str e,
                relevant_files = files\<rparr>, tr1))"

definition analyze ::
  "('d \<Rightarrow> string) \<Rightarrow> (py_value list \<Rightarrow> py_value list) \<Rightarrow> 'd CodebaseArchitectAgent
     \<Rightarrow> string \<Rightarrow> chat_message list option \<Rightarrow> trace \<Rightarrow> (py_exception + analysis) \<times> trace" where
  "analyze score_text set_order self question chat_history tr =
     (case retrieve_context score_text set_order self question 8 of
        Inl e \<Rightarrow> (Inl e, tr)
      | Inr (context, files) \<Rightarrow>
          (let prompt = build_prompt self context chat_history question;
               tr1 = tr\<lparr>calls := calls tr @ [AgentRun (SYSTEM_PROMPT self) prompt]\<rparr> in
           case agent_run self (SYSTEM_PROMPT self) prompt of
             Inr response \<Rightarrow> (Inr \<lparr>reply = extract_reply response, relevant_files = files\<rparr>, tr1)
           | Inl e \<Rightarrow>
               fallback_gemini_call self prompt files
                 (tr1\<lparr>printed := printed tr1 @
                    [''Agno agent error, falling back to direct Gemini: '' @ exc_str e]\<rparr>)))"

text \<open>The prompt that \<open>analyze\<close> builds once retrieval has returned.\<close>

definition prompt_of ::
  "('d \<Rightarrow> string) \<Rightarrow> (py_value list \<Rightarrow> py_value list) \<Rightarrow> 'd CodebaseArchitectAgent
     \<Rightarrow> string \<Rightarrow> chat_message list option \<Rightarrow> string" where
  "prompt_of score_text set_order self question chat_history =
     (case retrieve_context score_text set_order self question 8 of
        Inl e \<Rightarrow> []
      | Inr (context, files) \<Rightarrow> build_prompt self context chat_history question)"

section \<open>Sample inputs\<close>

text \<open>
  Concrete values on which the model is run. The sample interpreter handles ASCII text: its
  \<open>latin-1\<close> decoder is \<^const>\<open>decode_latin1\<close>, and its other decoders accept exactly
  the byte sequences below \<open>0x80\<close>.
\<close>

definition sample_decode :: "string \<Rightarrow> byte list \<Rightarrow> string option" where
  "sample_decode encoding bs =
     (if encoding = ''latin-1'' \<or> (\<forall>b \<in> set bs. b < 0x80) then decode_latin1 bs else None)"

definition sample_builtins :: py_builtins where
  "sample_builtins =
     \<lparr>str_lower = map ascii_lower, str_strip = ascii_strip, str_isalnum = ascii_isalnum,
      codec_decode = sample_decode\<rparr>"

definition sample_path :: py_path where
  "sample_path =
     \<lparr>name = ''Main.PY'', suffix = ''.PY'', parent_names = [''src'', ''repo'', ''tmp'', []],
      is_file = True, stat_st_size = Inr 12, relative_to_root = Inr ''src/Main.PY'',
      file_bytes = Inr [0x68, 0x69, 0x0D, 0x0A]\<rparr>"

definition sample_world :: "string list world" where
  "sample_world = \<lparr>chroma_client = [''user1_demo_0f3a9c21'', ''other''], stdout = []\<rparr>"

definition sample_store :: VectorStore where
  "sample_store = \<lparr>collection_name = ''user1_demo_0f3a9c21''\<rparr>"

text \<open>
  A search result with three hits, from \<open>b.py\<close>, \<open>a.py\<close> and \<open>b.py\<close> again; the sample
  distances are whole hundredths, and the sample score text is their complement to 100.
\<close>

definition sample_metadata :: "string \<Rightarrow> metadata" where
  "sample_metadata p = [''file_path'' \<mapsto> PyStr p, ''file_extension'' \<mapsto> PyStr ''.py'']"

definition sample_results :: "int query_result" where
  "sample_results =
     \<lparr>documents = [[''def b(): pass'', ''def a(): pass'', ''x = b()'']],
      metadatas = [[sample_metadata ''b.py'', sample_metadata ''a.py'', sample_metadata ''b.py'']],
      distances = [[10, 20, 30]]\<rparr>"

definition sample_score_text :: "int \<Rightarrow> string" where
  "sample_score_text distance = str_int (100 - distance)"

text \<open>
  An agent whose two generation capabilities both raise, and one whose vector search
  raises.
\<close>

definition sample_agent :: "int CodebaseArchitectAgent" where
  "sample_agent =
     \<lparr>SYSTEM_PROMPT = ''You are an expert Codebase Architect.'',
      ANALYSIS_GUIDELINES = ''Now provide your analysis:'',
      vector_store_search = (\<lambda>query n_results. Inr sample_results),
      agent_run = (\<lambda>instructions prompt. Inl (Raised RuntimeError ''agent unavailable'')),
      generate_content = (\<lambda>instructions prompt. Inl (Raised RuntimeError ''quota exceeded''))\<rparr>"

definition sample_agent_search_fails :: "int CodebaseArchitectAgent" where
  "sample_agent_search_fails =
     sample_agent\<lparr>vector_store_search :=
       (\<lambda>query n_results. Inl (Raised RuntimeError ''index unavailable''))\<rparr>"

definition empty_trace :: trace where
  "empty_trace = \<lparr>calls = [], printed = []\<rparr>"

definition sample_md5 :: "string \<Rightarrow> 128 word" where
  "sample_md5 s = 0x0123456789abcdef0123456789abcdef"

text \<open>
  A sample walk: the sample file, the same file under \<open>node_modules\<close>, a directory, and a
  second file with the bytes of \<open>abcd\<close>. The sample splitter cuts a text after its
  second character.
\<close>

definition sample_ingestion :: CodebaseIngestion where
  "sample_ingestion = \<lparr>split_text = (\<lambda>s. [take 2 s, drop 2 s])\<rparr>"

definition sample_path_ignored :: py_path where
  "sample_path_ignored = sample_path\<lparr>parent_names := [''node_modules'', ''repo'', ''tmp'', []]\<rparr>"

definition sample_dir :: py_path where
  "sample_dir = sample_path\<lparr>name := ''src'', suffix := [], is_file := False\<rparr>"

definition sample_path_util :: py_path where
  "sample_path_util =
     \<lparr>name = ''util.py'', suffix = ''.py'', parent_names = [''repo'', ''tmp'', []],
      is_file = True, stat_st_size = Inr 4, relative_to_root = Inr ''util.py'',
      file_bytes = Inr [0x61, 0x62, 0x63, 0x64]\<rparr>"

definition sample_tree :: "py_path list" where
  "sample_tree = [sample_path, sample_path_ignored, sample_dir, sample_path_util]"

text \<open>
  An interpreter for texts whose characters have codes below 256, with \<open>str.lower\<close>,
  \<open>str.strip\<close> and \<open>str.isalnum\<close> as the Unicode character database gives them for these
  characters: the capital letters \<open>C0\<close> to \<open>DE\<close> (without the sign \<open>D7\<close>) have the small
  letters \<open>E0\<close> to \<open>FE\<close>; alphanumeric are, beside the ASCII letters and digits, these
  letters, \<open>DF\<close> and \<open>FF\<close>, the ordinal indicators and the micro sign, the superscript
  digits and the three fractions.
\<close>

definition latin1_capitals :: string where
  "latin1_capitals =
     [
      CHR 0xC0, CHR 0xC1, CHR 0xC2, CHR 0xC3, CHR 0xC4, CHR 0xC5, CHR 0xC6, CHR 0xC7,
      CHR 0xC8, CHR 0xC9, CHR 0xCA, CHR 0xCB, CHR 0xCC, CHR 0xCD, CHR 0xCE, CHR 0xCF,
      CHR 0xD0, CHR 0xD1, CHR 0xD2, CHR 0xD3, CHR 0xD4, CHR 0xD5, CHR 0xD6, CHR 0xD8,
      CHR 0xD9, CHR 0xDA, CHR 0xDB, CHR 0xDC, CHR 0xDD, CHR 0xDE]"

definition latin1_smalls :: string where
  "latin1_smalls =
     [
      CHR 0xE0, CHR 0xE1, CHR 0xE2, CHR 0xE3, CHR 0xE4, CHR 0xE5, CHR 0xE6, CHR 0xE7,
      CHR 0xE8, CHR 0xE9, CHR 0xEA, CHR 0xEB, CHR 0xEC, CHR 0xED, CHR 0xEE, CHR 0xEF,
      CHR 0xF0, CHR 0xF1, CHR 0xF2, CHR 0xF3, CHR 0xF4, CHR 0xF5, CHR 0xF6, CHR 0xF8,
      CHR 0xF9, CHR 0xFA, CHR 0xFB, CHR 0xFC, CHR 0xFD, CHR 0xFE]"

definition latin1_lower :: "char \<Rightarrow> char" where
  "latin1_lower c =
     (case map_of (zip (''ABCDEFGHIJKLMNOPQRSTUVWXYZ'' @ latin1_capitals)
                       (''abcdefghijklmnopqrstuvwxyz'' @ latin1_smalls)) c of
        Some d \<Rightarrow> d
      | None \<Rightarrow> c)"

definition latin1_isalnum :: "char \<Rightarrow> bool" where
  "latin1_isalnum c \<longleftrightarrow>
     ascii_isalnum c \<or>
     c \<in> set (latin1_capitals @ latin1_smalls @
       [CHR 0xAA, CHR 0xB2, CHR 0xB3, CHR 0xB5, CHR 0xB9, CHR 0xBA, CHR 0xBC, CHR 0xBD, CHR 0xBE, CHR 0xDF, CHR 0xFF])"

definition latin1_isspace :: "char \<Rightarrow> bool" where
  "latin1_isspace c \<longleftrightarrow>
     ascii_isspace c \<or> c \<in> set [CHR 0x1C, CHR 0x1D, CHR 0x1E, CHR 0x1F, CHR 0x85, CHR 0xA0]"

definition latin1_strip :: "string \<Rightarrow> string" where
  "latin1_strip s = rev (dropWhile latin1_isspace (rev (dropWhile latin1_isspace s)))"

definition latin1_builtins :: py_builtins where
  "latin1_builtins =
     \<lparr>str_lower = map latin1_lower, str_strip = latin1_strip, str_isalnum = latin1_isalnum,
      codec_decode = sample_decode\<rparr>"

text \<open>The project name \<open>Caf\<close> followed by the letter \<open>E9\<close> (e with acute accent).\<close>

definition cafe :: string where
  "cafe = [CHR ''C'', CHR ''a'', CHR ''f'', CHR 0xE9]"

section \<open>Properties of the file filter\<close>

lemma in_ignored_dir_iff: "in_ignored_dir ps \<longleftrightarrow> (\<exists>p \<in> set ps. p \<in> IGNORE_DIRS)"
  by (induction ps) auto

text \<open>
  Claim C5. \<open>should_process_file\<close> is a function of the path and of the result of \<open>stat\<close>
  alone. It is \<open>False\<close> exactly when the lower-cased suffix is outside
  \<open>CODE_EXTENSIONS\<close>, or the name is in \<open>IGNORE_FILES\<close>, or the name of some parent is
  in \<open>IGNORE_DIRS\<close>, or \<open>stat\<close> raises, or the size is above 1,000,000 bytes; in every
  other case it is \<open>True\<close>. Every outcome of \<open>stat\<close>, an exception included, yields a
  boolean: nothing is raised.
\<close>

theorem should_process_file_characterisation:
  "should_process_file py file_path \<longleftrightarrow>
     \<not> (str_lower py (suffix file_path) \<notin> CODE_EXTENSIONS
        \<or> name file_path \<in> IGNORE_FILES
        \<or> (\<exists>parent \<in> set (parent_names file_path). parent \<in> IGNORE_DIRS)
        \<or> (case stat_st_size file_path of Inl e \<Rightarrow> True | Inr st_size \<Rightarrow> st_size > 1000000))"
  by (simp add: should_process_file_def in_ignored_dir_iff split: sum.split)

text \<open>
  The characterisation at sample paths: a \<open>.PY\<close> file of 12 bytes under \<open>src\<close> is
  accepted; the same file is rejected under \<open>node_modules\<close>, at 1,000,001 bytes and when
  \<open>stat\<close> raises, and accepted at exactly 1,000,000 bytes.
\<close>

theorem should_process_file_witness:
  "should_process_file sample_builtins sample_path
   \<and> \<not> should_process_file sample_builtins
         (sample_path\<lparr>parent_names := [''src'', ''node_modules'', ''repo'']\<rparr>)
   \<and> \<not> should_process_file sample_builtins (sample_path\<lparr>stat_st_size := Inr 1000001\<rparr>)
   \<and> should_process_file sample_builtins (sample_path\<lparr>stat_st_size := Inr 1000000\<rparr>)
   \<and> \<not> should_process_file sample_builtins
         (sample_path\<lparr>stat_st_size := Inl (Raised OSError ''gone'')\<rparr>)"
  using should_process_file_characterisation [of sample_builtins sample_path]
    should_process_file_characterisation
      [of sample_builtins "sample_path\<lparr>parent_names := [''src'', ''node_modules'', ''repo'']\<rparr>"]
    should_process_file_characterisation
      [of sample_builtins "sample_path\<lparr>stat_st_size := Inr 1000001\<rparr>"]
    should_process_file_characterisation
      [of sample_builtins "sample_path\<lparr>stat_st_size := Inr 1000000\<rparr>"]
    should_process_file_characterisation
      [of sample_builtins "sample_path\<lparr>stat_st_size := Inl (Raised OSError ''gone'')\<rparr>"]
  by (simp add: sample_builtins_def sample_path_def ascii_lower_def CODE_EXTENSIONS_def
      IGNORE_FILES_def IGNORE_DIRS_def)

section \<open>Properties of the content loader\<close>

lemma open_read_readable:
  "file_bytes file_path = Inr bs \<Longrightarrow>
   open_read py file_path encoding =
     (case codec_decode py encoding bs of
        None \<Rightarrow> Inl (Raised UnicodeDecodeError encoding)
      | Some text \<Rightarrow> Inr (universal_newlines text))"
  by (simp add: open_read_def)

lemma open_read_unreadable:
  "file_bytes file_path = Inl e \<Longrightarrow> open_read py file_path encoding = Inl e"
  by (simp add: open_read_def)

lemma try_encodings_unreadable:
  "file_bytes file_path = Inl e \<Longrightarrow>
   try_encodings py file_path encs =
     (if encs = [] \<or> is_unicode_error e then Inr None else Inl e)"
  by (induction encs) (simp_all add: open_read_unreadable)

lemma decode_error_is_unicode_error [simp]: "is_unicode_error (Raised UnicodeDecodeError s)"
  by (simp add: is_unicode_error_def)

lemma decode_latin1_samples:
  "decode_latin1 [0x68, 0x69, 0x0D, 0x0A] = Some [CHR ''h'', CHR ''i'', CHR 0x0D, CHR 0x0A]"
  "decode_latin1 [0x63, 0xE9] = Some [CHR ''c'', CHR 0xE9]"
  by code_simp+

text \<open>
  Claim C6. For a file that \<open>open\<close> can read, \<open>read_file_content\<close> returns the text read
  under \<open>utf-8\<close> when that codec accepts the bytes, else the text read under \<open>latin-1\<close>
  when that one does, else the text read under \<open>cp1252\<close>, and the empty string when all
  three reject the bytes. It never raises for a decoding failure: an exception leaves it
  only when \<open>open\<close> itself raised it, and it is then no \<open>UnicodeError\<close>.
\<close>

theorem read_file_content_first_success:
  "(file_bytes file_path = Inr bs \<longrightarrow>
      read_file_content py file_path =
        Inr (case codec_decode py ''utf-8'' bs of
               Some text \<Rightarrow> universal_newlines text
             | None \<Rightarrow>
                 (case codec_decode py ''latin-1'' bs of
                    Some text \<Rightarrow> universal_newlines text
                  | None \<Rightarrow>
                      (case codec_decode py ''cp1252'' bs of
                         Some text \<Rightarrow> universal_newlines text
                       | None \<Rightarrow> []))))
   \<and> (read_file_content py file_path = Inl e \<longrightarrow>
        file_bytes file_path = Inl e \<and> \<not> is_unicode_error e)"
proof (cases "file_bytes file_path")
  case (Inl e')
  have "try_encodings py file_path encodings =
          (if is_unicode_error e' then Inr None else Inl e')"
    by (subst try_encodings_unreadable [OF Inl]) (simp add: encodings_def)
  with Inl show ?thesis
    by (auto simp add: read_file_content_def)
next
  case (Inr bs')
  then show ?thesis
    by (auto simp add: read_file_content_def encodings_def open_read_readable
        split: option.splits)
qed

text \<open>
  The sample file holds the bytes of \<open>hi\r\n\<close> and is read under \<open>utf-8\<close>; the bytes
  \<open>63 E9\<close> are rejected by the sample \<open>utf-8\<close> decoder and read under \<open>latin-1\<close>; with
  decoders that reject everything the result is the empty string.
\<close>

theorem read_file_content_first_success_witness:
  "read_file_content sample_builtins sample_path = Inr [CHR ''h'', CHR ''i'', CHR 0x0A]
   \<and> read_file_content sample_builtins (sample_path\<lparr>file_bytes := Inr [0x63, 0xE9]\<rparr>)
       = Inr [CHR ''c'', CHR 0xE9]
   \<and> read_file_content (sample_builtins\<lparr>codec_decode := \<lambda>encoding bs. None\<rparr>) sample_path
       = Inr []"
  using read_file_content_first_success
      [of sample_path "[0x68, 0x69, 0x0D, 0x0A]" sample_builtins "Raised OSError ''denied''"]
    read_file_content_first_success
      [of "sample_path\<lparr>file_bytes := Inr [0x63, 0xE9]\<rparr>" "[0x63, 0xE9]" sample_builtins
        "Raised OSError ''denied''"]
    read_file_content_first_success
      [of sample_path "[0x68, 0x69, 0x0D, 0x0A]"
        "sample_builtins\<lparr>codec_decode := \<lambda>encoding bs. None\<rparr>" "Raised OSError ''denied''"]
  by (simp add: sample_builtins_def sample_path_def sample_decode_def decode_latin1_samples)

text \<open>
  Claim C10. With the \<open>latin-1\<close> decoder of ISO 8859-1, which accepts every byte
  sequence, the loop over the encodings never runs to its end for a file that \<open>open\<close> can
  read: the final \<open>return ""\<close> is not reached, and \<open>read_file_content\<close> returns the text
  read under \<open>utf-8\<close>, or else the text read under \<open>latin-1\<close>.
\<close>

theorem read_file_content_latin1_total:
  assumes "codec_decode py ''latin-1'' = decode_latin1"
    and "file_bytes file_path = Inr bs"
  shows "try_encodings py file_path encodings \<noteq> Inr None
    \<and> read_file_content py file_path =
        Inr (universal_newlines
               (case codec_decode py ''utf-8'' bs of
                  Some text \<Rightarrow> text
                | None \<Rightarrow> map (\<lambda>b. char_of (unat b)) bs))"
  using assms
  by (auto simp add: read_file_content_def encodings_def open_read_readable decode_latin1_def
      split: option.splits)

theorem read_file_content_latin1_total_witness:
  "codec_decode sample_builtins ''latin-1'' = decode_latin1
   \<and> file_bytes (sample_path\<lparr>file_bytes := Inr [0x63, 0xE9]\<rparr>) = Inr [0x63, 0xE9]
   \<and> try_encodings sample_builtins (sample_path\<lparr>file_bytes := Inr [0x63, 0xE9]\<rparr>) encodings
       \<noteq> Inr None
   \<and> read_file_content sample_builtins (sample_path\<lparr>file_bytes := Inr [0x63, 0xE9]\<rparr>)
       = Inr [CHR ''c'', CHR 0xE9]"
proof -
  have latin1: "codec_decode sample_builtins ''latin-1'' = decode_latin1"
    by (rule ext) (simp add: sample_builtins_def sample_decode_def)
  have readable: "file_bytes (sample_path\<lparr>file_bytes := Inr [0x63, 0xE9]\<rparr>) = Inr [0x63, 0xE9]"
    by simp
  have utf8: "codec_decode sample_builtins ''utf-8'' [0x63, 0xE9] = None"
    by (simp add: sample_builtins_def sample_decode_def)
  have decoded: "map (\<lambda>b. char_of (unat b)) [0x63, 0xE9 :: byte] = [CHR ''c'', CHR 0xE9]"
    using decode_latin1_samples(2) by (simp add: decode_latin1_def)
  show ?thesis
    using read_file_content_latin1_total [OF latin1 readable] latin1 utf8 decoded
    by simp
qed

section \<open>Properties of the vector index\<close>

text \<open>
  Claim C8. \<open>delete_collection\<close> never raises, whatever the client's own
  \<open>delete_collection\<close> does: when the client raises (as for a collection that is already
  gone), the exception is swallowed and one line naming the collection and the error is
  printed. Hence two calls in a row both return.
\<close>

theorem delete_collection_never_raises:
  "fst (delete_collection client_delete_collection self w) = Inr ()
   \<and> fst (delete_collection_twice client_delete_collection self w) = Inr ()
   \<and> (client_delete_collection (collection_name self) (chroma_client w) = (Inl e, c) \<longrightarrow>
        snd (delete_collection client_delete_collection self w) =
          w\<lparr>chroma_client := c,
            stdout := stdout w @
              [''Error deleting collection '' @ collection_name self @ '': '' @ exc_str e]\<rparr>)"
proof -
  have once: "fst (delete_collection cd self w') = Inr ()" for cd :: "'a client_delete" and w'
    by (simp add: delete_collection_def split: prod.split sum.split)
  have "fst (delete_collection_twice client_delete_collection self w) = Inr ()"
  proof (cases "delete_collection client_delete_collection self w")
    case (Pair r w1)
    with once [of client_delete_collection w] have "r = Inr ()" by simp
    with Pair once [of client_delete_collection w1] show ?thesis
      by (simp add: delete_collection_twice_def)
  qed
  with once show ?thesis
    by (simp add: delete_collection_def)
qed

text \<open>
  Deleting the sample collection twice: the first call removes it, the second meets the
  client's exception for the absent collection, prints the line and returns.
\<close>

theorem delete_collection_never_raises_witness:
  "delete_collection_twice sample_client_delete sample_store sample_world =
     (Inr (),
      \<lparr>chroma_client = [''other''],
       stdout = [''Error deleting collection user1_demo_0f3a9c21: '' @
                 ''Collection user1_demo_0f3a9c21 does not exist.'']\<rparr>)"
proof -
  have "snd (delete_collection_twice sample_client_delete sample_store sample_world) =
     \<lparr>chroma_client = [''other''],
       stdout = [''Error deleting collection user1_demo_0f3a9c21: '' @
                 ''Collection user1_demo_0f3a9c21 does not exist.'']\<rparr>"
    by (simp add: delete_collection_twice_def delete_collection_def sample_client_delete_def
        sample_store_def sample_world_def)
  with delete_collection_never_raises [of sample_client_delete sample_store sample_world]
  show ?thesis
    by (simp add: prod_eq_iff)
qed

section \<open>Properties of the answer composer\<close>

text \<open>
  Claim C9, as the code has it. The call of \<open>retrieve_context\<close> stands before the
  \<open>try\<close>, so an exception of the vector search leaves \<open>analyze\<close>: with a search that
  raises, \<open>analyze\<close> raises too and returns no reply.
\<close>

theorem analyze_retrieval_error_escapes:
  "fst (analyze sample_score_text (\<lambda>xs. xs) sample_agent_search_fails ''where is b?'' None
          empty_trace) = Inl (Raised RuntimeError ''index unavailable'')"
  by (simp add: analyze_def retrieve_context_def sample_agent_search_fails_def sample_agent_def)

text \<open>
  Claim C9, amended. Whenever the retrieval step returns, \<open>analyze\<close> returns a reply and
  no exception of a generation capability escapes. If the agent returns a response, the
  reply is read off it. If the agent raises, one line is printed and the direct call
  receives the very prompt and the very system instruction the agent received; its text is
  the reply, and if it raises as well the reply is the apology followed by the text of that
  second exception. The trace lists the calls with their arguments.
\<close>

theorem analyze_fallback_chain:
  assumes "retrieve_context score_text set_order self question 8 = Inr (context, files)"
  shows
    "(let prompt = build_prompt self context chat_history question;
          instructions = SYSTEM_PROMPT self;
          tr1 = tr\<lparr>calls := calls tr @ [AgentRun instructions prompt]\<rparr>
      in
        (\<exists>r. fst (analyze score_text set_order self question chat_history tr) = Inr r)
        \<and> (\<forall>response. agent_run self instructions prompt = Inr response \<longrightarrow>
              analyze score_text set_order self question chat_history tr =
                (Inr \<lparr>reply = extract_reply response, relevant_files = files\<rparr>, tr1))
        \<and> (\<forall>e1. agent_run self instructions prompt = Inl e1 \<longrightarrow>
              analyze score_text set_order self question chat_history tr =
                (Inr \<lparr>reply =
                        (case generate_content self instructions prompt of
                           Inr text \<Rightarrow> text
                         | Inl e2 \<Rightarrow>
                             ''I apologize, but I encountered an error analyzing the codebase: ''
                             @ exc_str e2),
                      relevant_files = files\<rparr>,
                 tr\<lparr>calls := calls tr @
                       [AgentRun instructions prompt, GenerateContent instructions prompt],
                    printed := printed tr @
                       [''Agno agent error, falling back to direct Gemini: '' @ exc_str e1]\<rparr>)))"
  using assms
  by (auto simp add: analyze_def fallback_gemini_call_def Let_def split: sum.splits)

text \<open>
  The sample agent, whose two capabilities both raise: the reply is the apology with the
  message of the second exception, both calls carry the same prompt, and the files are
  those of the hits.
\<close>

lemma sample_retrieve:
  "\<exists>context. retrieve_context sample_score_text (\<lambda>xs. xs) sample_agent ''where is b?'' 8 =
      Inr (context, [PyStr ''b.py'', PyStr ''a.py''])"
  by (simp add: retrieve_context_def format_hits_def sample_agent_def sample_results_def
      first_item_def sample_metadata_def dict_get_def lstrip_dot_def set_add_def Let_def)

theorem analyze_fallback_chain_witness:
  "analyze sample_score_text (\<lambda>xs. xs) sample_agent ''where is b?'' None empty_trace =
     (Inr \<lparr>reply =
             ''I apologize, but I encountered an error analyzing the codebase: quota exceeded'',
           relevant_files = [PyStr ''b.py'', PyStr ''a.py'']\<rparr>,
      \<lparr>calls =
          [AgentRun (SYSTEM_PROMPT sample_agent)
             (prompt_of sample_score_text (\<lambda>xs. xs) sample_agent ''where is b?'' None),
           GenerateContent (SYSTEM_PROMPT sample_agent)
             (prompt_of sample_score_text (\<lambda>xs. xs) sample_agent ''where is b?'' None)],
       printed = [''Agno agent error, falling back to direct Gemini: agent unavailable'']\<rparr>)"
proof -
  obtain ctx where
    r: "retrieve_context sample_score_text (\<lambda>xs. xs) sample_agent ''where is b?'' 8 =
          Inr (ctx, [PyStr ''b.py'', PyStr ''a.py''])"
    using sample_retrieve by blast
  have p: "prompt_of sample_score_text (\<lambda>xs. xs) sample_agent ''where is b?'' None =
           build_prompt sample_agent ctx None ''where is b?''"
    by (simp add: prompt_of_def r)
  have a: "agent_run sample_agent i q = Inl (Raised RuntimeError ''agent unavailable'')" for i q
    by (simp add: sample_agent_def)
  have g: "generate_content sample_agent i q = Inl (Raised RuntimeError ''quota exceeded'')" for i q
    by (simp add: sample_agent_def)
  show ?thesis
    using analyze_fallback_chain [OF r, of None empty_trace]
    by (simp add: Let_def a g p empty_trace_def)
qed

section \<open>Properties of the retriever\<close>

lemma remdups_snoc:
  "remdups (ys @ [x]) = filter (\<lambda>y. y \<noteq> x) (remdups ys) @ [x]"
  by (induction ys) auto

lemma first_appearance_Cons:
  "first_appearance (x # xs) = x # filter (\<lambda>y. y \<noteq> x) (first_appearance xs)"
  by (simp add: first_appearance_def remdups_snoc rev_filter)

lemma first_appearance_Nil [simp]: "first_appearance [] = []"
  by (simp add: first_appearance_def)

lemma set_first_appearance [simp]: "set (first_appearance xs) = set xs"
  by (simp add: first_appearance_def)

lemma distinct_first_appearance [simp]: "distinct (first_appearance xs)"
  by (simp add: first_appearance_def)

lemma fold_set_add:
  "fold set_add xs acc = acc @ filter (\<lambda>x. x \<notin> set acc) (first_appearance xs)"
proof (induction xs arbitrary: acc)
  case Nil
  then show ?case by simp
next
  case (Cons x xs)
  show ?case
  proof (cases "x \<in> set acc")
    case True
    have "filter (\<lambda>y. y \<notin> set acc) (filter (\<lambda>y. y \<noteq> x) (first_appearance xs)) =
          filter (\<lambda>y. y \<notin> set acc) (first_appearance xs)"
      using True by (auto intro: filter_cong)
    with True Cons show ?thesis
      by (simp add: set_add_def first_appearance_Cons)
  next
    case False
    have "filter (\<lambda>y. y \<notin> set (acc @ [x])) (first_appearance xs) =
          filter (\<lambda>y. y \<notin> set acc) (filter (\<lambda>y. y \<noteq> x) (first_appearance xs))"
      by (auto intro: filter_cong)
    with False Cons [of "acc @ [x]"] show ?thesis
      by (simp add: set_add_def first_appearance_Cons)
  qed
qed

lemma hits_loop_file_paths:
  "hits_loop score_text hs context_parts file_paths = Inr (context_parts', file_paths') \<Longrightarrow>
   file_paths' =
     fold set_add
       (map (\<lambda>(doc, metadata, distance). dict_get metadata ''file_path'' (PyStr ''unknown'')) hs)
       file_paths"
proof (induction hs arbitrary: context_parts file_paths)
  case Nil
  then show ?case by simp
next
  case (Cons h hs)
  obtain doc metadata distance where h: "h = (doc, metadata, distance)"
    by (cases h) auto
  from Cons.prems show ?case
    unfolding h
    by (auto simp add: Let_def split: sum.splits dest: Cons.IH)
qed

lemma iteration_order_Nil: "iteration_order set_order \<Longrightarrow> set_order [] = []"
  by (auto simp add: iteration_order_def dest: spec [of _ "[]"])

lemma format_hits_files:
  assumes "format_hits score_text set_order results = Inr (ctx, files)"
    and "iteration_order set_order"
  shows "files = set_order (first_appearance (hit_file_paths results))"
proof (cases "documents results = [] \<or> hd (documents results) = []")
  case True
  with assms(1) have "files = []"
    by (auto simp add: format_hits_def)
  moreover have "hit_file_paths results = []"
    using True by (simp add: hit_file_paths_def hits_def)
  ultimately show ?thesis
    using iteration_order_Nil [OF assms(2)] by simp
next
  case False
  from assms(1) False obtain docs metas dists context_parts file_paths where
    d: "first_item (documents results) = Inr docs"
    and m: "first_item (metadatas results) = Inr metas"
    and ds: "first_item (distances results) = Inr dists"
    and l: "hits_loop score_text (zip docs (zip metas dists)) [] [] =
              Inr (context_parts, file_paths)"
    and f: "files = set_order file_paths"
    by (auto simp add: format_hits_def split: sum.splits)
  have "docs = hd (documents results)" "metas = hd (metadatas results)"
    "dists = hd (distances results)"
    using d m ds by (auto simp add: first_item_def split: list.splits)
  then have "hits results = zip docs (zip metas dists)"
    using False by (simp add: hits_def)
  with hits_loop_file_paths [OF l] have "file_paths = first_appearance (hit_file_paths results)"
    by (simp add: hit_file_paths_def fold_set_add)
  with f show ?thesis by simp
qed

lemma iteration_order_rev: "iteration_order rev"
  by (simp add: iteration_order_def)

lemma sample_hit_file_paths:
  "hit_file_paths sample_results = [PyStr ''b.py'', PyStr ''a.py'', PyStr ''b.py'']"
  by (simp add: hit_file_paths_def hits_def sample_results_def dict_get_def sample_metadata_def)

lemma sample_first_appearance:
  "first_appearance (hit_file_paths sample_results) = [PyStr ''b.py'', PyStr ''a.py'']"
  by (simp add: sample_hit_file_paths first_appearance_def)

lemma sample_retrieve_rev:
  "\<exists>ctx. retrieve_context sample_score_text rev sample_agent ''where is b?'' 5 =
      Inr (ctx, [PyStr ''a.py'', PyStr ''b.py''])"
  by (simp add: retrieve_context_def format_hits_def sample_agent_def sample_results_def
      first_item_def sample_metadata_def dict_get_def lstrip_dot_def set_add_def Let_def)

text \<open>
  Claim C1, as the code has it. The paths are collected in a \<open>set\<close> and the result is
  \<open>list(file_paths)\<close>, whose order is the iteration order of the set and not the order of
  insertion. The sample hits come from \<open>b.py\<close>, \<open>a.py\<close>, \<open>b.py\<close>; under an iteration
  order that lists the two elements the other way round the result is \<open>a.py\<close>, \<open>b.py\<close>,
  which is not the order of first appearance.
\<close>

theorem relevant_files_order_counterexample:
  "iteration_order (rev :: py_value list \<Rightarrow> py_value list)
   \<and> retrieved_files sample_score_text rev sample_agent ''where is b?'' 5 =
       Inr [PyStr ''a.py'', PyStr ''b.py'']
   \<and> retrieved_files sample_score_text rev sample_agent ''where is b?'' 5 \<noteq>
       Inr (first_appearance (hit_file_paths sample_results))"
proof -
  obtain ctx where
    r: "retrieve_context sample_score_text rev sample_agent ''where is b?'' 5 =
          Inr (ctx, [PyStr ''a.py'', PyStr ''b.py''])"
    using sample_retrieve_rev by blast
  then show ?thesis
    using iteration_order_rev sample_first_appearance by (simp add: retrieved_files_def)
qed

text \<open>
  Claim C1, amended. When the search and the retrieval return, the relevant files are the
  distinct \<open>file_path\<close> values of the hits (\<open>unknown\<close> for a hit without one), each
  listed once, in the iteration order of the set that collected them: the list of their
  first appearances, rearranged by \<open>set_order\<close>.
\<close>

theorem relevant_files_distinct:
  assumes "iteration_order set_order"
    and "vector_store_search self query n_results = Inr results"
    and "retrieve_context score_text set_order self query n_results = Inr (ctx, files)"
  shows "files = set_order (first_appearance (hit_file_paths results))
    \<and> distinct files
    \<and> set files = set (hit_file_paths results)"
proof -
  from assms(2,3) have "format_hits score_text set_order results = Inr (ctx, files)"
    by (simp add: retrieve_context_def)
  from format_hits_files [OF this assms(1)]
  have f: "files = set_order (first_appearance (hit_file_paths results))" .
  moreover from assms(1) have "distinct (set_order (first_appearance (hit_file_paths results)))"
    "set (set_order (first_appearance (hit_file_paths results))) = set (hit_file_paths results)"
    by (simp_all add: iteration_order_def)
  ultimately show ?thesis by simp
qed

text \<open>The amended claim at the sample hits, under the reversing iteration order.\<close>

theorem relevant_files_distinct_witness:
  "iteration_order (rev :: py_value list \<Rightarrow> py_value list)
   \<and> retrieved_files sample_score_text rev sample_agent ''where is b?'' 5 =
       Inr [PyStr ''a.py'', PyStr ''b.py'']
   \<and> distinct [PyStr ''a.py'', PyStr ''b.py'']
   \<and> set [PyStr ''a.py'', PyStr ''b.py''] = set (hit_file_paths sample_results)"
proof -
  obtain ctx where
    r: "retrieve_context sample_score_text rev sample_agent ''where is b?'' 5 =
          Inr (ctx, [PyStr ''a.py'', PyStr ''b.py''])"
    using sample_retrieve_rev by blast
  have s: "vector_store_search sample_agent ''where is b?'' 5 = Inr sample_results"
    by (simp add: sample_agent_def)
  show ?thesis
    using relevant_files_distinct [OF iteration_order_rev s r] iteration_order_rev r
    by (simp add: retrieved_files_def)
qed

section \<open>Properties of \<open>create_collection_name\<close>\<close>

lemma digit_char_alnum: "d < 10 \<Longrightarrow> ascii_isalnum (digit_char d)"
proof -
  assume "d < 10"
  then have "d \<in> {0, 1, 2, 3, 4, 5, 6, 7, 8, 9}" by auto
  then show ?thesis
    by (auto simp add: digit_char_def ascii_isalnum_def)
qed

lemma str_nat_alnum: "c \<in> set (str_nat n) \<Longrightarrow> ascii_isalnum c"
proof (induction n rule: str_nat.induct)
  case (1 n)
  show ?case
  proof (cases "n < 10")
    case True
    with "1.prems" show ?thesis
      by (subst (asm) str_nat.simps) (simp add: digit_char_alnum)
  next
    case False
    with "1.prems" have "c \<in> set (str_nat (n div 10)) \<or> c = digit_char (n mod 10)"
      by (subst (asm) str_nat.simps) auto
    with False "1.IH" show ?thesis
      by (auto simp add: digit_char_alnum)
  qed
qed

lemma length_str_nat_pos: "0 < length (str_nat n)"
  by (subst str_nat.simps) simp

lemma length_str_nat_le: "n < 10 ^ k \<Longrightarrow> 0 < k \<Longrightarrow> length (str_nat n) \<le> k"
proof (induction k arbitrary: n)
  case 0
  then show ?case by simp
next
  case (Suc k)
  show ?case
  proof (cases "n < 10")
    case True
    then show ?thesis by (subst str_nat.simps) simp
  next
    case False
    with Suc.prems have k: "0 < k"
      by (cases k) auto
    from Suc.prems have "n div 10 < 10 ^ k"
      by (simp add: less_mult_imp_div_less mult.commute)
    from Suc.IH [OF this k] False show ?thesis
      by (subst str_nat.simps) simp
  qed
qed

lemma str_int_name_char: "c \<in> set (str_int i) \<Longrightarrow> name_char c"
  by (auto simp add: str_int_def name_char_def str_nat_alnum split: if_splits)

lemma length_str_int_le:
  assumes "- (10 ^ 18) < i" and "i < 10 ^ 19"
  shows "length (str_int i) \<le> 19"
proof (cases "i < 0")
  case True
  with assms have "nat (- i) < 10 ^ 18"
    by (simp add: nat_less_iff)
  from length_str_nat_le [OF this] True show ?thesis
    by (simp add: str_int_def)
next
  case False
  with assms have "nat i < 10 ^ 19"
    by (simp add: nat_less_iff)
  from length_str_nat_le [OF this] False show ?thesis
    by (simp add: str_int_def)
qed

lemma length_str_int_pos: "0 < length (str_int i)"
  using length_str_nat_pos [of "nat i"] by (simp add: str_int_def)

lemma hex_digits_alnum: "\<forall>d \<in> set [0..<16]. ascii_isalnum (hex_digit d)"
  by code_simp

lemma hex_digit_alnum: "d < 16 \<Longrightarrow> ascii_isalnum (hex_digit d)"
  using hex_digits_alnum by simp

lemma nibble_less: "unat (take_bit 4 (w :: 128 word)) < 16"
proof -
  have "unat (take_bit 4 w) = take_bit 4 (unat w)"
    by (simp add: unsigned_take_bit_eq)
  also have "\<dots> < 2 ^ 4"
    by (rule take_bit_nat_less_exp)
  finally show ?thesis by simp
qed

lemma length_hexdigest [simp]: "length (hexdigest w) = 32"
  by (simp add: hexdigest_def)

lemma hexdigest_alnum: "c \<in> set (hexdigest w) \<Longrightarrow> ascii_isalnum c"
  by (auto simp add: hexdigest_def hex_digit_alnum nibble_less)

lemma length_hash_suffix [simp]: "length (hash_suffix md5 now user_id project_name) = 8"
  by (simp add: hash_suffix_def)

lemma hash_suffix_name_char:
  "c \<in> set (hash_suffix md5 now user_id project_name) \<Longrightarrow> name_char c"
  by (auto simp add: hash_suffix_def name_char_def hexdigest_alnum dest: in_set_takeD)

lemma length_safe_name: "length (safe_name py project_name) \<le> 30"
proof -
  have "length (safe_name py project_name) \<le>
        length (take 30 (replace_space (str_lower py project_name)))"
    unfolding safe_name_def by (rule length_filter_le)
  then show ?thesis by simp
qed

lemma safe_name_chars:
  "c \<in> set (safe_name py project_name) \<Longrightarrow> str_isalnum py c \<or> c = CHR ''_'' \<or> c = CHR ''-''"
  by (auto simp add: safe_name_def)

lemma sample_hash_suffix:
  "hash_suffix sample_md5 now user_id project_name = ''01234567''"
proof -
  have "take 8 (hexdigest (0x0123456789abcdef0123456789abcdef)) = ''01234567''"
    by code_simp
  then show ?thesis
    by (simp add: hash_suffix_def sample_md5_def)
qed

lemma safe_name_cafe: "safe_name latin1_builtins cafe = [CHR ''c'', CHR ''a'', CHR ''f'', CHR 0xE9]"
  by (simp add: safe_name_def latin1_builtins_def cafe_def replace_space_def latin1_lower_def
      latin1_capitals_def latin1_smalls_def latin1_isalnum_def ascii_isalnum_def)

lemma str_int_1: "str_int 1 = ''1''"
  by (simp add: str_int_def str_nat.simps digit_char_def)

text \<open>
  What holds of the result for every interpreter: its length, its hash suffix, and that a
  character outside the allowed alphabet can only be one that \<open>isalnum\<close> let through.
\<close>

lemma create_collection_name_length:
  "15 \<le> length (create_collection_name py md5 now user_id project_name)
   \<and> (- (10 ^ 18) < user_id \<and> user_id < 10 ^ 19 \<longrightarrow>
        length (create_collection_name py md5 now user_id project_name) \<le> 63)"
proof -
  let ?r = "create_collection_name py md5 now user_id project_name"
  have len: "length ?r =
      14 + length (str_int user_id) + length (safe_name py project_name)"
    by (simp add: create_collection_name_def)
  have "15 \<le> length ?r"
    using len length_str_int_pos [of user_id] by linarith
  moreover have "length ?r \<le> 63" if "- (10 ^ 18) < user_id" "user_id < 10 ^ 19"
    using len length_str_int_le [OF that] length_safe_name [of py project_name] by simp
  ultimately show ?thesis by simp
qed

lemma create_collection_name_length_database_key:
  assumes "0 \<le> user_id" and "user_id < 2 ^ 63"
  shows "3 \<le> length (create_collection_name py md5 now user_id project_name)"
    and "length (create_collection_name py md5 now user_id project_name) \<le> 63"
proof -
  from assms have "- (10 ^ 18) < user_id \<and> user_id < 10 ^ 19"
    by simp
  with create_collection_name_length [of py md5 now user_id project_name]
  show "3 \<le> length (create_collection_name py md5 now user_id project_name)"
    and "length (create_collection_name py md5 now user_id project_name) \<le> 63"
    by simp_all
qed

lemma create_collection_name_suffix:
  "drop (length (create_collection_name py md5 now user_id project_name) - 8)
     (create_collection_name py md5 now user_id project_name) =
   take 8 (hexdigest (md5 (str_int user_id @ ''_'' @ project_name @ ''_'' @ str_int now)))"
proof -
  let ?h = "hash_suffix md5 now user_id project_name"
  have "drop (length (xs @ ys) - length ys) (xs @ ys) = ys" for xs ys :: string
    by simp
  from this [of "''user'' @ str_int user_id @ ''_'' @ safe_name py project_name @ ''_''" ?h]
  have "drop (length (create_collection_name py md5 now user_id project_name) - 8)
          (create_collection_name py md5 now user_id project_name) = ?h"
    by (simp add: create_collection_name_def)
  then show ?thesis
    by (simp add: hash_suffix_def unique_str_def)
qed

lemma create_collection_name_chars:
  assumes "c \<in> set (create_collection_name py md5 now user_id project_name)"
  shows "name_char c \<or> str_isalnum py c"
proof -
  from assms consider "c \<in> set ''user''" | "c \<in> set (str_int user_id)" | "c = CHR ''_''"
    | "c \<in> set (safe_name py project_name)"
    | "c \<in> set (hash_suffix md5 now user_id project_name)"
    by (auto simp add: create_collection_name_def)
  then show ?thesis
  proof cases
    case 1
    then show ?thesis by (auto simp add: name_char_def ascii_isalnum_def)
  next
    case 2
    then show ?thesis by (simp add: str_int_name_char)
  next
    case 3
    then show ?thesis by (simp add: name_char_def)
  next
    case 4
    from safe_name_chars [OF this] show ?thesis by (auto simp add: name_char_def)
  next
    case 5
    then show ?thesis by (simp add: hash_suffix_name_char)
  qed
qed

text \<open>
  Claim C7. The result of \<open>create_collection_name\<close> should contain only alphanumeric
  characters, underscores and hyphens, have 3 to 63 characters and end in the 8-character
  hash suffix; the comment in the source states this as the naming rule of the store, whose
  letters and digits are the ASCII ones. The length and the suffix are as claimed for every
  user id that is a database key. The characters are not: the code filters the project
  name with \<open>isalnum\<close>, which holds of every letter and digit of Unicode, so a letter
  outside ASCII stays in the name. For user 1 and the project name \<open>Caf\<close> followed by
  \<open>E9\<close> (e with acute accent) the result is \<open>user1_caf\<close>, that letter and the suffix, and
  the letter is not among the allowed characters.
\<close>

theorem create_collection_name_non_ascii:
  "create_collection_name latin1_builtins sample_md5 1700000000 1 cafe =
     ''user1_caf'' @ [CHR 0xE9] @ ''_01234567''
   \<and> CHR 0xE9 \<in> set (create_collection_name latin1_builtins sample_md5 1700000000 1 cafe)
   \<and> \<not> name_char (CHR 0xE9)
   \<and> \<not> list_all name_char (create_collection_name latin1_builtins sample_md5 1700000000 1 cafe)"
proof -
  have r: "create_collection_name latin1_builtins sample_md5 1700000000 1 cafe =
     ''user1_caf'' @ [CHR 0xE9] @ ''_01234567''"
    by (simp add: create_collection_name_def sample_hash_suffix safe_name_cafe str_int_1)
  have n: "\<not> name_char (CHR 0xE9)"
    by (simp add: name_char_def ascii_isalnum_def)
  have m: "CHR 0xE9 \<in> set (''user1_caf'' @ [CHR 0xE9] @ ''_01234567'')"
    by simp
  from m n have "\<not> list_all name_char (''user1_caf'' @ [CHR 0xE9] @ ''_01234567'')"
    unfolding list_all_iff by blast
  with r n m show ?thesis
    by (simp only: simp_thms)
qed

section \<open>Properties of the ingestion orchestrator\<close>

subsection \<open>The inner loop\<close>

lemma append_chunks_chunks:
  "all_chunks (append_chunks rel fp n ics st) = all_chunks st @ map snd ics"
  by (induction ics arbitrary: st) auto

lemma append_chunks_metadatas:
  "all_metadatas (append_chunks rel fp n ics st) =
     all_metadatas st @ map (\<lambda>(i, chunk). chunk_metadata rel fp i n) ics"
  by (induction ics arbitrary: st) auto

lemma append_chunks_chunk_id:
  "chunk_id (append_chunks rel fp n ics st) = chunk_id st + int (length ics)"
  by (induction ics arbitrary: st) auto

lemma append_chunks_ids:
  "all_ids (append_chunks rel fp n ics st) =
     all_ids st @ map (\<lambda>k. ''chunk_'' @ str_int (chunk_id st + int k)) [0..<length ics]"
proof (induction ics arbitrary: st)
  case Nil
  then show ?case by simp
next
  case (Cons ic ics)
  obtain i chunk where ic: "ic = (i, chunk)" by (cases ic) auto
  have "[0..<Suc (length ics)] = 0 # map Suc [0..<length ics]"
    by (simp add: upt_conv_Cons map_Suc_upt del: upt_Suc)
  then show ?case
    unfolding ic by (simp add: Cons.IH o_def add.assoc del: upt_Suc)
qed

lemma append_chunks_file_count:
  "file_count (append_chunks rel fp n ics st) = file_count st"
  by (induction ics arbitrary: st) auto

lemma map_snd_enumerate: "map snd (enumerate xs) = xs"
  by (simp add: enumerate_def)

lemma length_enumerate [simp]: "length (enumerate xs) = length xs"
  by (simp add: enumerate_def)

lemma map_fst_fun_enumerate:
  "map (\<lambda>(i, chunk). f i) (enumerate xs) = map f [0..<length xs]"
proof -
  have "map (\<lambda>(i, chunk). f i) (enumerate xs) = map f (map fst (enumerate xs))"
    by (simp add: case_prod_unfold)
  then show ?thesis by (simp add: enumerate_def)
qed

subsection \<open>One path of the walk\<close>

lemma process_file_effect:
  assumes "process_file py self fp st = Inr st'"
  shows "all_chunks st' = all_chunks st @ file_chunks py self fp"
    and "all_metadatas st' = all_metadatas st @ file_metadatas py self fp"
    and "all_ids st' = all_ids st @
           map (\<lambda>k. ''chunk_'' @ str_int (chunk_id st + int k))
             [0..<length (file_chunks py self fp)]"
    and "chunk_id st' = chunk_id st + int (length (file_chunks py self fp))"
  using assms
  by (auto simp add: process_file_def file_chunks_def file_metadatas_def file_content_def
      Let_def append_chunks_chunks append_chunks_metadatas append_chunks_ids
      append_chunks_chunk_id map_snd_enumerate map_fst_fun_enumerate
      split: if_splits sum.splits)

lemma process_file_returns:
  "\<not> file_raises py fp \<Longrightarrow> \<exists>st'. process_file py self fp st = Inr st'"
  by (auto simp add: process_file_def file_raises_def Let_def split: sum.splits)

lemma length_file_metadatas:
  "length (file_metadatas py self fp) = length (file_chunks py self fp)"
  by (auto simp add: file_metadatas_def file_chunks_def split: sum.splits option.splits)

subsection \<open>The walk\<close>

lemma walk_effect:
  assumes "walk py self fps st = Inr st'"
  shows "all_chunks st' = all_chunks st @ concat (map (file_chunks py self) fps)
    \<and> all_metadatas st' = all_metadatas st @ concat (map (file_metadatas py self) fps)
    \<and> all_ids st' = all_ids st @
          map (\<lambda>k. ''chunk_'' @ str_int (chunk_id st + int k))
            [0..<length (concat (map (file_chunks py self) fps))]
    \<and> chunk_id st' = chunk_id st + int (length (concat (map (file_chunks py self) fps)))"
  using assms
proof (induction fps arbitrary: st)
  case Nil
  then show ?case by simp
next
  case (Cons fp fps)
  from Cons.prems obtain st1 where
    one: "process_file py self fp st = Inr st1" and rest: "walk py self fps st1 = Inr st'"
    by (auto split: sum.splits)
  let ?a = "length (file_chunks py self fp)"
  let ?b = "length (concat (map (file_chunks py self) fps))"
  have split: "[0..<?a + ?b] = [0..<?a] @ map (\<lambda>k. ?a + k) [0..<?b]"
  proof -
    have "[0..<?a + ?b] = [0..<?a] @ [?a..<?a + ?b]"
      using upt_add_eq_append [of 0 ?a ?b] by simp
    moreover have "map (\<lambda>k. k + ?a) [0..<?b] = [?a..<?b + ?a]"
      by (rule map_add_upt)
    then have "[?a..<?a + ?b] = map (\<lambda>k. ?a + k) [0..<?b]"
      by (simp add: add.commute)
    ultimately show ?thesis by simp
  qed
  have ids: "map (\<lambda>k. ''chunk_'' @ str_int (chunk_id st + int k)) [0..<?a + ?b] =
        map (\<lambda>k. ''chunk_'' @ str_int (chunk_id st + int k)) [0..<?a] @
        map (\<lambda>k. ''chunk_'' @ str_int (chunk_id st + int ?a + int k)) [0..<?b]"
    unfolding split by (simp add: o_def add.assoc)
  from Cons.IH [OF rest] process_file_effect [OF one] ids show ?case
    by simp
qed

lemma walk_returns:
  "\<forall>fp \<in> set fps. \<not> file_raises py fp \<Longrightarrow> \<exists>st'. walk py self fps st = Inr st'"
proof (induction fps arbitrary: st)
  case Nil
  then show ?case by simp
next
  case (Cons fp fps)
  then obtain st1 where "process_file py self fp st = Inr st1"
    using process_file_returns [of py fp self st] by auto
  with Cons show ?case by simp
qed

subsection \<open>Decimal numerals are injective\<close>

lemma digit_char_inj: "a < 10 \<Longrightarrow> b < 10 \<Longrightarrow> digit_char a = digit_char b \<Longrightarrow> a = b"
proof -
  assume "a < 10" "b < 10" "digit_char a = digit_char b"
  moreover have "distinct ''0123456789''" by simp
  ultimately show "a = b"
    by (simp add: digit_char_def nth_eq_iff_index_eq)
qed

lemma str_nat_inj: "str_nat m = str_nat n \<Longrightarrow> m = n"
proof (induction m arbitrary: n rule: str_nat.induct)
  case (1 m)
  show ?case
  proof (cases "m < 10")
    case True
    then have m: "str_nat m = [digit_char m]"
      by (subst str_nat.simps) simp
    show ?thesis
    proof (cases "n < 10")
      case n: True
      then have "str_nat n = [digit_char n]"
        by (subst str_nat.simps) simp
      with m "1.prems" True n show ?thesis
        by (auto dest: digit_char_inj)
    next
      case False
      then have "str_nat n = str_nat (n div 10) @ [digit_char (n mod 10)]"
        by (subst str_nat.simps) simp
      with m "1.prems" length_str_nat_pos [of "n div 10"] show ?thesis
        by (cases "str_nat (n div 10)") auto
    qed
  next
    case False
    then have m: "str_nat m = str_nat (m div 10) @ [digit_char (m mod 10)]"
      by (subst str_nat.simps) simp
    show ?thesis
    proof (cases "n < 10")
      case True
      then have "str_nat n = [digit_char n]"
        by (subst str_nat.simps) simp
      with m "1.prems" length_str_nat_pos [of "m div 10"] show ?thesis
        by (cases "str_nat (m div 10)") auto
    next
      case n: False
      then have "str_nat n = str_nat (n div 10) @ [digit_char (n mod 10)]"
        by (subst str_nat.simps) simp
      with m "1.prems" have
        "str_nat (m div 10) = str_nat (n div 10)" "digit_char (m mod 10) = digit_char (n mod 10)"
        by auto
      with "1.IH" [OF False] digit_char_inj [of "m mod 10" "n mod 10"]
      have "m div 10 = n div 10" "m mod 10 = n mod 10"
        by simp_all
      then show ?thesis
        by (metis div_mult_mod_eq)
    qed
  qed
qed

lemma str_int_of_nat [simp]: "str_int (int n) = str_nat n"
  by (simp add: str_int_def)

lemma distinct_chunk_ids: "distinct (map (\<lambda>n. ''chunk_'' @ str_int (int n)) [0..<k])"
  by (auto simp add: distinct_map inj_on_def dest: str_nat_inj)

lemma zip_concat_blocks:
  "\<forall>x \<in> set xs. length (f x) = length (g x) \<Longrightarrow>
   zip (concat (map f xs)) (concat (map g xs)) = concat (map (\<lambda>x. zip (f x) (g x)) xs)"
  by (induction xs) simp_all

lemma process_codebase_returns:
  "\<forall>fp \<in> set rglob. \<not> file_raises py fp \<Longrightarrow> \<exists>r. process_codebase py self rglob = Inr r"
  using walk_returns [of rglob py self initial_state]
  by (auto simp add: process_codebase_def)

lemma decode_latin1_abcd:
  "decode_latin1 [0x61, 0x62, 0x63, 0x64] = Some ''abcd''"
  by code_simp

lemma sample_should_process:
  "should_process_file sample_builtins sample_path"
  "\<not> should_process_file sample_builtins sample_path_ignored"
  "should_process_file sample_builtins sample_path_util"
  by (simp_all add: sample_path_def sample_path_ignored_def sample_path_util_def
      should_process_file_def sample_builtins_def ascii_lower_def CODE_EXTENSIONS_def
      IGNORE_FILES_def IGNORE_DIRS_def)

lemma sample_read:
  "read_file_content sample_builtins sample_path = Inr [CHR ''h'', CHR ''i'', CHR 0x0A]"
  "read_file_content sample_builtins sample_path_util = Inr ''abcd''"
  by (simp_all add: sample_path_def sample_path_util_def sample_builtins_def
      read_file_content_def encodings_def open_read_def sample_decode_def
      decode_latin1_samples decode_latin1_abcd)

lemma sample_strip:
  "str_strip sample_builtins [CHR ''h'', CHR ''i'', CHR 0x0A] = ''hi''"
  "str_strip sample_builtins ''abcd'' = ''abcd''"
  by (simp_all add: sample_builtins_def ascii_strip_def ascii_isspace_def)

lemma sample_flags:
  "is_file sample_path" "is_file sample_path_ignored" "\<not> is_file sample_dir"
  "is_file sample_path_util"
  "relative_path_str sample_path = Inr ''src/Main.PY''"
  "relative_path_str sample_path_util = Inr ''util.py''"
  by (simp_all add: sample_path_def sample_path_ignored_def sample_dir_def
      sample_path_util_def relative_path_str_def)

lemma sample_file_content:
  "file_content sample_builtins sample_path = Some [CHR ''h'', CHR ''i'', CHR 0x0A]"
  "file_content sample_builtins sample_path_ignored = None"
  "file_content sample_builtins sample_dir = None"
  "file_content sample_builtins sample_path_util = Some ''abcd''"
  by (simp_all add: file_content_def sample_should_process sample_read sample_strip sample_flags)

lemma sample_tree_no_raise:
  "\<forall>fp \<in> set sample_tree. \<not> file_raises sample_builtins fp"
  by (simp add: sample_tree_def file_raises_def sample_should_process sample_read sample_strip
      sample_flags)

lemma sample_file_chunks:
  "file_chunks sample_builtins sample_ingestion sample_path = [''hi'', [CHR 0x0A]]"
  "file_chunks sample_builtins sample_ingestion sample_path_ignored = []"
  "file_chunks sample_builtins sample_ingestion sample_dir = []"
  "file_chunks sample_builtins sample_ingestion sample_path_util = [''ab'', ''cd'']"
  by (simp_all add: file_chunks_def sample_file_content sample_flags sample_ingestion_def)

lemma sample_tree_chunks:
  "concat (map (file_chunks sample_builtins sample_ingestion) sample_tree) =
     [''hi'', [CHR 0x0A], ''ab'', ''cd'']"
  by (simp add: sample_tree_def sample_file_chunks)

lemma sample_ids:
  "map (\<lambda>n. ''chunk_'' @ str_int (int n)) [0..<4] =
     [''chunk_0'', ''chunk_1'', ''chunk_2'', ''chunk_3'']"
proof -
  have "[0..<4] = [0, 1, 2, 3 :: nat]" by code_simp
  then show ?thesis
    by (simp add: str_int_def str_nat.simps digit_char_def)
qed

lemma file_block_nth:
  assumes "j < length (file_chunks py self fp)"
  shows "\<exists>content rel.
      is_file fp \<and> should_process_file py fp
      \<and> read_file_content py fp = Inr content \<and> str_strip py content \<noteq> []
      \<and> relative_path_str fp = Inr rel
      \<and> file_chunks py self fp = split_text self content
      \<and> file_metadatas py self fp ! j = chunk_metadata rel fp j (length (split_text self content))"
  using assms
  by (auto simp add: file_chunks_def file_content_def file_metadatas_def
      split: option.splits sum.splits if_splits)

lemma chunk_metadata_keys:
  "chunk_metadata rel fp j n ''file_path'' = Some (PyStr rel)"
  "chunk_metadata rel fp j n ''file_name'' = Some (PyStr (name fp))"
  "chunk_metadata rel fp j n ''file_extension'' = Some (PyStr (suffix fp))"
  "chunk_metadata rel fp j n ''chunk_index'' = Some (PyInt (int j))"
  "chunk_metadata rel fp j n ''total_chunks'' = Some (PyInt (int n))"
  by (simp_all add: chunk_metadata_def)

lemma sample_metadata_keys:
  "map (\<lambda>m. (m ''file_path'', m ''file_name'', m ''chunk_index''))
     (file_metadatas sample_builtins sample_ingestion sample_path) =
     [(Some (PyStr ''src/Main.PY''), Some (PyStr ''Main.PY''), Some (PyInt 0)),
      (Some (PyStr ''src/Main.PY''), Some (PyStr ''Main.PY''), Some (PyInt 1))]"
  "file_metadatas sample_builtins sample_ingestion sample_path_ignored = []"
  "file_metadatas sample_builtins sample_ingestion sample_dir = []"
  "map (\<lambda>m. (m ''file_path'', m ''file_name'', m ''chunk_index''))
     (file_metadatas sample_builtins sample_ingestion sample_path_util) =
     [(Some (PyStr ''util.py''), Some (PyStr ''util.py''), Some (PyInt 0)),
      (Some (PyStr ''util.py''), Some (PyStr ''util.py''), Some (PyInt 1))]"
proof -
  have two: "[0..<2] = [0, 1 :: nat]"
    by code_simp
  have names: "name sample_path = ''Main.PY''" "name sample_path_util = ''util.py''"
    by (simp_all add: sample_path_def sample_path_util_def)
  show "map (\<lambda>m. (m ''file_path'', m ''file_name'', m ''chunk_index''))
     (file_metadatas sample_builtins sample_ingestion sample_path) =
     [(Some (PyStr ''src/Main.PY''), Some (PyStr ''Main.PY''), Some (PyInt 0)),
      (Some (PyStr ''src/Main.PY''), Some (PyStr ''Main.PY''), Some (PyInt 1))]"
    by (simp add: file_metadatas_def sample_flags sample_file_chunks two chunk_metadata_keys
        names)
  show "file_metadatas sample_builtins sample_ingestion sample_path_ignored = []"
    by (simp add: file_metadatas_def sample_file_chunks split: sum.split)
  show "file_metadatas sample_builtins sample_ingestion sample_dir = []"
    by (simp add: file_metadatas_def sample_file_chunks split: sum.split)
  show "map (\<lambda>m. (m ''file_path'', m ''file_name'', m ''chunk_index''))
     (file_metadatas sample_builtins sample_ingestion sample_path_util) =
     [(Some (PyStr ''util.py''), Some (PyStr ''util.py''), Some (PyInt 0)),
      (Some (PyStr ''util.py''), Some (PyStr ''util.py''), Some (PyInt 1))]"
    by (simp add: file_metadatas_def sample_flags sample_file_chunks two chunk_metadata_keys
        names)
qed

text \<open>
  Claim C2. \<open>process_codebase\<close> returns unless the loop body raises at some path (the
  read or \<open>relative_to\<close> fails uncaught). What it returns are three lists of equal length,
  and position \<open>i\<close> of each describes the same chunk: there are a file of the walk that
  passed the filter, with its text and its path relative to the root, and a position \<open>j\<close>
  such that the chunk at \<open>i\<close> is the \<open>j\<close>-th chunk of that text and the metadata at \<open>i\<close>
  has that relative path as \<open>file_path\<close>, the name of the file as \<open>file_name\<close>, its
  suffix as \<open>file_extension\<close>, \<open>j\<close> as \<open>chunk_index\<close> and the number of chunks of the
  file as \<open>total_chunks\<close>. The pairs of chunk and metadata follow the order of the walk,
  file after file. The id at position \<open>i\<close> is \<open>chunk_\<close> followed by the decimal form of
  \<open>i\<close>, counted from 0 across the whole run, so the ids are pairwise different.
\<close>

theorem process_codebase_aligned_ids:
  "((\<forall>fp \<in> set rglob. \<not> file_raises py fp) \<longrightarrow>
      (\<exists>r. process_codebase py self rglob = Inr r))
   \<and> (process_codebase py self rglob = Inr (chunks, metas, ids) \<longrightarrow>
        length chunks = length metas \<and> length metas = length ids
        \<and> zip chunks metas =
            concat (map (\<lambda>fp. zip (file_chunks py self fp) (file_metadatas py self fp)) rglob)
        \<and> ids = map (\<lambda>n. ''chunk_'' @ str_int (int n)) [0..<length chunks]
        \<and> distinct ids
        \<and> (\<forall>i. i < length chunks \<longrightarrow>
              (\<exists>fp j content rel.
                 fp \<in> set rglob \<and> is_file fp \<and> should_process_file py fp
                 \<and> read_file_content py fp = Inr content
                 \<and> relative_path_str fp = Inr rel
                 \<and> j < length (split_text self content)
                 \<and> chunks ! i = split_text self content ! j
                 \<and> (metas ! i) ''file_path'' = Some (PyStr rel)
                 \<and> (metas ! i) ''file_name'' = Some (PyStr (name fp))
                 \<and> (metas ! i) ''file_extension'' = Some (PyStr (suffix fp))
                 \<and> (metas ! i) ''chunk_index'' = Some (PyInt (int j))
                 \<and> (metas ! i) ''total_chunks'' =
                     Some (PyInt (int (length (split_text self content))))
                 \<and> ids ! i = ''chunk_'' @ str_int (int i))))"
proof (intro conjI impI allI)
  assume "\<forall>fp \<in> set rglob. \<not> file_raises py fp"
  from walk_returns [OF this, of self initial_state]
  show "\<exists>r. process_codebase py self rglob = Inr r"
    by (auto simp add: process_codebase_def)
next
  assume run: "process_codebase py self rglob = Inr (chunks, metas, ids)"
  then obtain st where w: "walk py self rglob initial_state = Inr st"
    and out: "chunks = all_chunks st" "metas = all_metadatas st" "ids = all_ids st"
    by (auto simp add: process_codebase_def split: sum.splits)
  from walk_effect [OF w] out have
    c: "chunks = concat (map (file_chunks py self) rglob)"
    and m: "metas = concat (map (file_metadatas py self) rglob)"
    and i: "ids = map (\<lambda>n. ''chunk_'' @ str_int (int n)) [0..<length chunks]"
    by (simp_all add: initial_state_def)
  have lm: "length metas = length chunks"
    unfolding c m by (simp add: length_concat o_def length_file_metadatas)
  show l1: "length chunks = length metas" using lm by simp
  show "length metas = length ids" using lm i by simp
  show z: "zip chunks metas =
      concat (map (\<lambda>fp. zip (file_chunks py self fp) (file_metadatas py self fp)) rglob)"
    unfolding c m by (rule zip_concat_blocks) (simp add: length_file_metadatas)
  show "ids = map (\<lambda>n. ''chunk_'' @ str_int (int n)) [0..<length chunks]" by (rule i)
  show "distinct ids" unfolding i by (rule distinct_chunk_ids)
  fix k
  assume k: "k < length chunks"
  with l1 have "(chunks ! k, metas ! k) \<in> set (zip chunks metas)"
    by (auto simp add: in_set_zip)
  with z obtain fp where fp: "fp \<in> set rglob"
    and mem: "(chunks ! k, metas ! k) \<in>
                set (zip (file_chunks py self fp) (file_metadatas py self fp))"
    by auto
  from mem obtain j where j: "j < length (file_chunks py self fp)"
    and cj: "file_chunks py self fp ! j = chunks ! k"
    and mj: "file_metadatas py self fp ! j = metas ! k"
    by (auto simp add: in_set_zip)
  from file_block_nth [OF j] obtain content rel where
    f: "is_file fp" "should_process_file py fp" "read_file_content py fp = Inr content"
      "relative_path_str fp = Inr rel"
    and fc: "file_chunks py self fp = split_text self content"
    and fm: "file_metadatas py self fp ! j =
               chunk_metadata rel fp j (length (split_text self content))"
    by blast
  have idk: "ids ! k = ''chunk_'' @ str_int (int k)"
    using k by (subst i) simp
  have mk: "metas ! k = chunk_metadata rel fp j (length (split_text self content))"
    using fm mj by simp
  have ck: "chunks ! k = split_text self content ! j" and jl: "j < length (split_text self content)"
    using cj j fc by simp_all
  show "\<exists>fp j content rel.
          fp \<in> set rglob \<and> is_file fp \<and> should_process_file py fp
          \<and> read_file_content py fp = Inr content
          \<and> relative_path_str fp = Inr rel
          \<and> j < length (split_text self content)
          \<and> chunks ! k = split_text self content ! j
          \<and> (metas ! k) ''file_path'' = Some (PyStr rel)
          \<and> (metas ! k) ''file_name'' = Some (PyStr (name fp))
          \<and> (metas ! k) ''file_extension'' = Some (PyStr (suffix fp))
          \<and> (metas ! k) ''chunk_index'' = Some (PyInt (int j))
          \<and> (metas ! k) ''total_chunks'' =
              Some (PyInt (int (length (split_text self content))))
          \<and> ids ! k = ''chunk_'' @ str_int (int k)"
    using fp f jl ck idk unfolding mk chunk_metadata_keys
    by blast
qed

text \<open>
  The sample walk yields two chunks for each of its two eligible files, numbered
  \<open>chunk_0\<close> to \<open>chunk_3\<close> across both; each metadata entry names the file of its
  chunk and the position of the chunk in that file.
\<close>

theorem process_codebase_aligned_ids_witness:
  "(case process_codebase sample_builtins sample_ingestion sample_tree of
      Inl e \<Rightarrow> False
    | Inr (chunks, metas, ids) \<Rightarrow>
        chunks = [''hi'', [CHR 0x0A], ''ab'', ''cd'']
        \<and> map (\<lambda>m. (m ''file_path'', m ''file_name'', m ''chunk_index'')) metas =
            [(Some (PyStr ''src/Main.PY''), Some (PyStr ''Main.PY''), Some (PyInt 0)),
             (Some (PyStr ''src/Main.PY''), Some (PyStr ''Main.PY''), Some (PyInt 1)),
             (Some (PyStr ''util.py''), Some (PyStr ''util.py''), Some (PyInt 0)),
             (Some (PyStr ''util.py''), Some (PyStr ''util.py''), Some (PyInt 1))]
        \<and> ids = [''chunk_0'', ''chunk_1'', ''chunk_2'', ''chunk_3''])"
proof -
  let ?fc = "file_chunks sample_builtins sample_ingestion"
  let ?fm = "file_metadatas sample_builtins sample_ingestion"
  note t = process_codebase_aligned_ids [of sample_tree sample_builtins sample_ingestion]
  have "\<exists>r. process_codebase sample_builtins sample_ingestion sample_tree = Inr r"
    using t [THEN conjunct1] sample_tree_no_raise by (rule mp)
  then obtain r where "process_codebase sample_builtins sample_ingestion sample_tree = Inr r" ..
  moreover obtain chunks metas ids where "r = (chunks, metas, ids)"
    by (cases r)
  ultimately have
    r: "process_codebase sample_builtins sample_ingestion sample_tree = Inr (chunks, metas, ids)"
    by simp
  note p = t [of chunks metas ids, THEN conjunct2, THEN mp, OF r]
  have l1: "length chunks = length metas"
    using p by (rule conjunct1)
  have z: "zip chunks metas = concat (map (\<lambda>fp. zip (?fc fp) (?fm fp)) sample_tree)"
    using p by (elim conjE)
  have i: "ids = map (\<lambda>n. ''chunk_'' @ str_int (int n)) [0..<length chunks]"
    using p by (elim conjE)
  have "chunks = map fst (zip chunks metas)"
    using l1 by simp
  also have "\<dots> = concat (map ?fc sample_tree)"
    unfolding z by (simp add: map_concat o_def length_file_metadatas)
  finally have c: "chunks = [''hi'', [CHR 0x0A], ''ab'', ''cd'']"
    by (simp only: sample_tree_chunks)
  have "metas = map snd (zip chunks metas)"
    using l1 by simp
  also have "\<dots> = concat (map ?fm sample_tree)"
    unfolding z by (simp add: map_concat o_def length_file_metadatas)
  finally have m: "metas = concat (map ?fm sample_tree)" .
  have keys: "map (\<lambda>m. (m ''file_path'', m ''file_name'', m ''chunk_index'')) metas =
            [(Some (PyStr ''src/Main.PY''), Some (PyStr ''Main.PY''), Some (PyInt 0)),
             (Some (PyStr ''src/Main.PY''), Some (PyStr ''Main.PY''), Some (PyInt 1)),
             (Some (PyStr ''util.py''), Some (PyStr ''util.py''), Some (PyInt 0)),
             (Some (PyStr ''util.py''), Some (PyStr ''util.py''), Some (PyInt 1))]"
    unfolding m by (simp add: sample_tree_def sample_metadata_keys)
  have "length chunks = 4"
    unfolding c by simp
  with i sample_ids have i': "ids = [''chunk_0'', ''chunk_1'', ''chunk_2'', ''chunk_3'']"
    by simp
  from c keys i' show ?thesis
    unfolding r by simp
qed

lemma file_metadatas_index:
  "map (\<lambda>m. m ''chunk_index'') (file_metadatas py self fp) =
     map (\<lambda>i. Some (PyInt (int i))) [0..<length (file_chunks py self fp)]"
  by (auto simp add: file_metadatas_def file_chunks_def chunk_metadata_def
      split: sum.splits option.splits)

lemma file_metadatas_total:
  "m \<in> set (file_metadatas py self fp) \<Longrightarrow>
   m ''total_chunks'' = Some (PyInt (int (length (file_chunks py self fp))))"
  by (auto simp add: file_metadatas_def chunk_metadata_def split: sum.splits)

lemma file_metadatas_bound:
  assumes "m \<in> set (file_metadatas py self fp)"
  shows "\<exists>i. i < length (file_chunks py self fp) \<and> m ''chunk_index'' = Some (PyInt (int i))"
proof -
  from assms obtain k where k: "k < length (file_metadatas py self fp)"
    and mk: "m = file_metadatas py self fp ! k"
    by (auto simp add: in_set_conv_nth)
  from k have k': "k < length (file_chunks py self fp)"
    by (simp add: length_file_metadatas)
  have "map (\<lambda>m. m ''chunk_index'') (file_metadatas py self fp) ! k =
        map (\<lambda>i. Some (PyInt (int i))) [0..<length (file_chunks py self fp)] ! k"
    by (simp only: file_metadatas_index)
  with k k' mk have "m ''chunk_index'' = Some (PyInt (int k))"
    by simp
  with k' show ?thesis by blast
qed

text \<open>
  Claim C3. For every path of the walk, the metadata entries built for it are as many as
  its chunks, their \<open>chunk_index\<close> values are 0, 1, ... up to the number of chunks less
  one, in this order, and every entry has that number of chunks as \<open>total_chunks\<close>. The
  metadata list of a run is made of these blocks, path after path, so in every entry
  \<open>chunk_index\<close> is below \<open>total_chunks\<close>.
\<close>

theorem chunk_index_contiguous:
  "(\<forall>fp \<in> set rglob.
      length (file_metadatas py self fp) = length (file_chunks py self fp)
      \<and> map (\<lambda>m. m ''chunk_index'') (file_metadatas py self fp) =
          map (\<lambda>i. Some (PyInt (int i))) [0..<length (file_chunks py self fp)]
      \<and> (\<forall>m \<in> set (file_metadatas py self fp).
            m ''total_chunks'' = Some (PyInt (int (length (file_chunks py self fp))))))
   \<and> (process_codebase py self rglob = Inr (chunks, metas, ids) \<longrightarrow>
        chunks = concat (map (file_chunks py self) rglob)
        \<and> metas = concat (map (file_metadatas py self) rglob)
        \<and> (\<forall>m \<in> set metas. \<exists>i n. m ''chunk_index'' = Some (PyInt (int i))
              \<and> m ''total_chunks'' = Some (PyInt (int n)) \<and> i < n))"
proof (intro conjI impI ballI)
  assume run: "process_codebase py self rglob = Inr (chunks, metas, ids)"
  then obtain st where w: "walk py self rglob initial_state = Inr st"
    and out: "chunks = all_chunks st" "metas = all_metadatas st"
    by (auto simp add: process_codebase_def split: sum.splits)
  from walk_effect [OF w] out show
    c: "chunks = concat (map (file_chunks py self) rglob)"
    and m: "metas = concat (map (file_metadatas py self) rglob)"
    by (simp_all add: initial_state_def)
  fix md
  assume "md \<in> set metas"
  with m obtain fp where fp: "fp \<in> set rglob" "md \<in> set (file_metadatas py self fp)"
    by auto
  from file_metadatas_bound [OF fp(2)] file_metadatas_total [OF fp(2)]
  show "\<exists>i n. md ''chunk_index'' = Some (PyInt (int i))
          \<and> md ''total_chunks'' = Some (PyInt (int n)) \<and> i < n"
    by blast
qed (simp_all add: length_file_metadatas file_metadatas_index file_metadatas_total)

text \<open>
  In the sample walk each eligible file has two chunks: the indices are 0, 1, 0, 1 and
  every \<open>total_chunks\<close> is 2.
\<close>

theorem chunk_index_contiguous_witness:
  "(case process_codebase sample_builtins sample_ingestion sample_tree of
      Inl e \<Rightarrow> False
    | Inr (chunks, metas, ids) \<Rightarrow>
        map (\<lambda>m. m ''chunk_index'') metas =
          [Some (PyInt 0), Some (PyInt 1), Some (PyInt 0), Some (PyInt 1)]
        \<and> map (\<lambda>m. m ''total_chunks'') metas =
          [Some (PyInt 2), Some (PyInt 2), Some (PyInt 2), Some (PyInt 2)])"
proof -
  let ?fm = "file_metadatas sample_builtins sample_ingestion"
  let ?fc = "file_chunks sample_builtins sample_ingestion"
  from process_codebase_returns [OF sample_tree_no_raise, of sample_ingestion]
  obtain r where "process_codebase sample_builtins sample_ingestion sample_tree = Inr r" ..
  moreover obtain chunks metas ids where "r = (chunks, metas, ids)"
    by (cases r)
  ultimately have
    r: "process_codebase sample_builtins sample_ingestion sample_tree = Inr (chunks, metas, ids)"
    by simp
  note t = chunk_index_contiguous
    [of sample_tree sample_builtins sample_ingestion chunks metas ids]
  note per_file = t [THEN conjunct1]
  note run = t [THEN conjunct2, THEN mp, OF r]
  have m: "metas = concat (map ?fm sample_tree)"
    using run by (elim conjE)
  have two: "[0..<2] = [0, 1 :: nat]"
    by code_simp
  have idx: "map (\<lambda>m. m ''chunk_index'') (?fm fp) =
      map (\<lambda>i. Some (PyInt (int i))) [0..<length (?fc fp)]"
    if "fp \<in> set sample_tree" for fp
    using per_file that by blast
  have tot: "map (\<lambda>m. m ''total_chunks'') (?fm fp) =
      replicate (length (?fc fp)) (Some (PyInt (int (length (?fc fp)))))"
    if "fp \<in> set sample_tree" for fp
  proof -
    from per_file that have len: "length (?fm fp) = length (?fc fp)"
      and all: "\<forall>m \<in> set (?fm fp). m ''total_chunks'' = Some (PyInt (int (length (?fc fp))))"
      by blast+
    have "map (\<lambda>m. m ''total_chunks'') (?fm fp) =
          map (\<lambda>m. Some (PyInt (int (length (?fc fp))))) (?fm fp)"
      using all by (intro map_cong) auto
    also have "\<dots> = replicate (length (?fm fp)) (Some (PyInt (int (length (?fc fp)))))"
      by (rule map_replicate_const)
    finally show ?thesis
      by (simp only: len)
  qed
  have in_tree: "sample_path \<in> set sample_tree" "sample_path_ignored \<in> set sample_tree"
    "sample_dir \<in> set sample_tree" "sample_path_util \<in> set sample_tree"
    by (simp_all add: sample_tree_def)
  have "map (\<lambda>m. m ''chunk_index'') metas =
          [Some (PyInt 0), Some (PyInt 1), Some (PyInt 0), Some (PyInt 1)]"
    unfolding m
    by (simp add: map_concat sample_tree_def idx [OF in_tree(1)] idx [OF in_tree(2)]
        idx [OF in_tree(3)] idx [OF in_tree(4)] sample_file_chunks two)
  moreover have "map (\<lambda>m. m ''total_chunks'') metas =
          [Some (PyInt 2), Some (PyInt 2), Some (PyInt 2), Some (PyInt 2)]"
    unfolding m
    by (simp add: map_concat sample_tree_def tot [OF in_tree(1)] tot [OF in_tree(2)]
        tot [OF in_tree(3)] tot [OF in_tree(4)] sample_file_chunks numeral_2_eq_2)
  ultimately show ?thesis
    unfolding r by simp
qed

end
